theory Spec2Isabelle
  imports Complex_Main "HOL-Library.Multiset"
begin

section \<open>Clipped image statistics: \<open>computeMean.c\<close>\<close>

text \<open>
  The file holds one computation, \<open>computeMean_\<close>, and its Python binding
  \<open>computeMean\<close>. The computation makes one pass over a buffer of doubles, keeps the
  samples inside an inclusive clip range, and derives their count, mean, sample standard
  deviation, minimum and maximum.

  Numbers. Samples and clip bounds are finite doubles, as \<^typ>\<open>real\<close>; NaN and infinite
  samples are outside this development. The code is given twice: first in exact
  arithmetic, with the running sums as reals, and then with the rounding of double
  arithmetic as a parameter, of which the first is the instance that rounds nothing. The
  two divisions of the epilogue can divide by zero, so the values they produce range
  over \<open>dbl\<close>, the reals extended with the two infinities and NaN.
  A C \<open>int\<close> is an \<^typ>\<open>int\<close> between \<open>INT_MIN\<close> and \<open>INT_MAX\<close>; signed
  overflow and a read outside the buffer are undefined in C and are the result \<open>None\<close>.
\<close>

subsection \<open>Numeric types\<close>

definition INT_MAX :: int where
  "INT_MAX = 2147483647"

definition INT_MIN :: int where
  "INT_MIN = - 2147483648"

datatype dbl = Finite real | PInf | NInf | NaN

text \<open>
  IEEE 754 operations on the special values, exact on finite ones. The sign of a zero is
  not tracked; the only divisors of this program are converted from an \<open>int\<close>, whose
  zero is the positive zero, which is why the divisor of \<open>ddiv_int\<close> is an integer.
\<close>

fun dmul :: "dbl \<Rightarrow> dbl \<Rightarrow> dbl" where
  "dmul NaN _ = NaN"
| "dmul _ NaN = NaN"
| "dmul (Finite a) (Finite b) = Finite (a * b)"
| "dmul (Finite a) PInf = (if a = 0 then NaN else if 0 < a then PInf else NInf)"
| "dmul (Finite a) NInf = (if a = 0 then NaN else if 0 < a then NInf else PInf)"
| "dmul PInf (Finite b) = (if b = 0 then NaN else if 0 < b then PInf else NInf)"
| "dmul NInf (Finite b) = (if b = 0 then NaN else if 0 < b then NInf else PInf)"
| "dmul PInf PInf = PInf"
| "dmul PInf NInf = NInf"
| "dmul NInf PInf = NInf"
| "dmul NInf NInf = PInf"

fun dsub :: "dbl \<Rightarrow> dbl \<Rightarrow> dbl" where
  "dsub NaN _ = NaN"
| "dsub _ NaN = NaN"
| "dsub (Finite a) (Finite b) = Finite (a - b)"
| "dsub (Finite a) PInf = NInf"
| "dsub (Finite a) NInf = PInf"
| "dsub PInf (Finite b) = PInf"
| "dsub NInf (Finite b) = NInf"
| "dsub PInf PInf = NaN"
| "dsub PInf NInf = PInf"
| "dsub NInf PInf = NInf"
| "dsub NInf NInf = NaN"

fun ddiv_int :: "dbl \<Rightarrow> int \<Rightarrow> dbl" where
  "ddiv_int NaN n = NaN"
| "ddiv_int (Finite a) n =
     (if n = 0 then (if a = 0 then NaN else if 0 < a then PInf else NInf)
      else Finite (a / of_int n))"
| "ddiv_int PInf n = (if 0 \<le> n then PInf else NInf)"
| "ddiv_int NInf n = (if 0 \<le> n then NInf else PInf)"

fun dsqrt :: "dbl \<Rightarrow> dbl" where
  "dsqrt NaN = NaN"
| "dsqrt (Finite a) = (if a < 0 then NaN else Finite (sqrt a))"
| "dsqrt PInf = PInf"
| "dsqrt NInf = NaN"

subsection \<open>State\<close>

text \<open>
  The memory the function works on: the buffer behind \<open>image\<close> and the five locations
  behind its output pointers, which are distinct from each other and from the buffer, as
  they are when the binding passes the addresses of its local variables.
\<close>

record memory =
  image_data :: "real list"
  numGoodPixels :: int
  mean :: dbl
  stddev :: dbl
  minValue :: real
  maxValue :: real

text \<open>The local variables of \<open>computeMean_\<close> other than the loop index.\<close>

record locals =
  tmpMinValue :: real
  tmpMaxValue :: real
  sum_acc :: real
  sumsq :: real

subsection \<open>The pass\<close>

text \<open>
  The \<open>for\<close> loop of \<open>computeMean_\<close> at index \<open>i\<close>. The counter is not a local: each
  accepted sample increments the location behind \<open>numGoodPixels\<close>.
\<close>

function loop :: "int \<Rightarrow> real \<Rightarrow> real \<Rightarrow> int \<Rightarrow> locals \<Rightarrow> memory \<Rightarrow> (locals \<times> memory) option" where
  "loop nelements clipmin clipmax i l m =
     (if i < nelements then
        (if i < 0 \<or> int (length (image_data m)) \<le> i then None
         else
           let x = image_data m ! nat i in
           if x \<ge> clipmin \<and> x \<le> clipmax then
             let l1 = (if x < tmpMinValue l then l\<lparr>tmpMinValue := x\<rparr> else l);
                 l2 = (if x > tmpMaxValue l1 then l1\<lparr>tmpMaxValue := x\<rparr> else l1)
             in
               if INT_MAX < numGoodPixels m + 1 then None
               else
                 let m1 = m\<lparr>numGoodPixels := numGoodPixels m + 1\<rparr>;
                     l3 = l2\<lparr>sum_acc := sum_acc l2 + x\<rparr>;
                     l4 = l3\<lparr>sumsq := sumsq l3 + x * x\<rparr>
                 in loop nelements clipmin clipmax (i + 1) l4 m1
           else loop nelements clipmin clipmax (i + 1) l m)
      else Some (l, m))"
  by pat_completeness auto
termination
  by (relation "measure (\<lambda>(nelements, clipmin, clipmax, i, l, m). nat (nelements - i))") auto

declare loop.simps [simp del]

subsection \<open>The core function\<close>

text \<open>
  \<open>computeMean_\<close>: the initialisation of the locals, the pass, and the epilogue that
  stores the four double results. The result is the returned status and the memory.
\<close>

definition computeMean_core :: "int \<Rightarrow> real \<Rightarrow> real \<Rightarrow> memory \<Rightarrow> (int \<times> memory) option" where
  "computeMean_core nelements clipmin clipmax m =
     (let l0 = \<lparr>tmpMinValue = clipmax, tmpMaxValue = clipmin, sum_acc = 0, sumsq = 0\<rparr> in
      case loop nelements clipmin clipmax 0 l0 m of
        None \<Rightarrow> None
      | Some (l, m1) \<Rightarrow>
          let m2 = m1\<lparr>minValue := tmpMinValue l\<rparr>;
              m3 = m2\<lparr>maxValue := tmpMaxValue l\<rparr>;
              m4 = m3\<lparr>mean := ddiv_int (Finite (sum_acc l)) (numGoodPixels m3)\<rparr>
          in
            if numGoodPixels m4 - 1 < INT_MIN then None
            else
              Some (1, m4\<lparr>stddev :=
                dsqrt (ddiv_int (dsub (Finite (sumsq l)) (dmul (mean m4) (Finite (sum_acc l))))
                         (numGoodPixels m4 - 1))\<rparr>))"

subsection \<open>The binding\<close>

text \<open>
  \<open>PyArray_Size\<close> returns a 64-bit size which the call converts to the \<open>int\<close>
  parameter \<open>nelements\<close>: the low 32 bits, read as two's complement.
\<close>

definition size_to_int :: "nat \<Rightarrow> int" where
  "size_to_int n =
     (let r = int n mod 4294967296 in if r \<le> INT_MAX then r else r - 4294967296)"

datatype pyobject = PyNULL | PyTuple_idddd int dbl dbl real real

text \<open>
  The memory at the call of the core: the converted buffer, and the five result variables
  of \<open>computeMean\<close>, which it sets to zero before passing their addresses.
\<close>

definition entry_memory :: "real list \<Rightarrow> memory" where
  "entry_memory buf =
     \<lparr>image_data = buf, numGoodPixels = 0, mean = Finite 0, stddev = Finite 0,
      minValue = 0, maxValue = 0\<rparr>"

text \<open>
  \<open>computeMean\<close>. Its argument stands for the outcome of the two library calls it
  starts with: \<open>None\<close> when \<open>PyArg_ParseTuple\<close> fails, otherwise the values left in
  \<open>clipmin\<close> and \<open>clipmax\<close> and the outcome of \<open>PyArray_ContiguousFromObject\<close>,
  which is \<open>None\<close> when the conversion fails and the flat buffer of doubles otherwise.
  The status of the core is assigned and never read.
\<close>

definition computeMean :: "(real list option \<times> real \<times> real) option \<Rightarrow> pyobject option" where
  "computeMean args =
     (case args of
        None \<Rightarrow> Some PyNULL
      | Some (oimage, clipmin, clipmax) \<Rightarrow>
          (case oimage of
             None \<Rightarrow> Some PyNULL
           | Some buf \<Rightarrow>
               (case computeMean_core (size_to_int (length buf)) clipmin clipmax
                       (entry_memory buf) of
                  None \<Rightarrow> None
                | Some (status, m) \<Rightarrow>
                    Some (PyTuple_idddd (numGoodPixels m) (mean m) (stddev m)
                            (minValue m) (maxValue m)))))"

subsection \<open>The same code in double arithmetic\<close>

text \<open>
  The definitions above add and multiply samples as real numbers. The machine rounds the
  result of every operation on doubles, and \<open>loop_fp\<close> and \<open>computeMean_core_fp\<close> are
  the same two pieces of code with that rounding made explicit: they take the rounding
  \<open>rnd\<close> of a real result to a double as a parameter and apply it after each addition,
  multiplication, subtraction, division and square root of lines 51, 54, 60 and 61.
  With \<open>round_double\<close> for \<open>rnd\<close> this is IEEE 754 double precision, each operation
  rounded once to the nearest double (no extended precision, no fused multiply-add);
  with \<open>Finite\<close>, which rounds nothing, it is exact arithmetic, and then it is
  \<open>computeMean_core\<close>. Comparisons and the conversion of an \<open>int\<close> to a double are exact.

  \<open>rne\<close> rounds to the nearest integer, ties to the even one. \<open>round_double\<close> rounds a
  real to the nearest number with a 53-bit significand in its binade, with the exponent
  held at \<open>- 1022\<close> for subnormal numbers, and to an infinity when the rounded value
  reaches \<open>2 ^ 1024\<close>.
\<close>

definition rne :: "real \<Rightarrow> int" where
  "rne y =
     (let f = \<lfloor>y\<rfloor>; d = y - of_int f
      in if d < 1 / 2 then f else if 1 / 2 < d then f + 1 else if even f then f else f + 1)"

definition round_double :: "real \<Rightarrow> dbl" where
  "round_double x =
     (if x = 0 then Finite 0
      else
        let e = max \<lfloor>log 2 \<bar>x\<bar>\<rfloor> (- 1022);
            u = 2 powr of_int (e - 52);
            r = of_int (rne (x / u)) * u
        in if 2 powr 1024 \<le> \<bar>r\<bar> then (if 0 < x then PInf else NInf) else Finite r)"

text \<open>Addition on the special values, exact on finite ones.\<close>

fun dadd :: "dbl \<Rightarrow> dbl \<Rightarrow> dbl" where
  "dadd NaN _ = NaN"
| "dadd _ NaN = NaN"
| "dadd (Finite a) (Finite b) = Finite (a + b)"
| "dadd (Finite a) PInf = PInf"
| "dadd (Finite a) NInf = NInf"
| "dadd PInf (Finite b) = PInf"
| "dadd NInf (Finite b) = NInf"
| "dadd PInf PInf = PInf"
| "dadd PInf NInf = NaN"
| "dadd NInf PInf = NaN"
| "dadd NInf NInf = NInf"

text \<open>An operation on doubles: the exact result, rounded when it is finite.\<close>

definition rounded :: "(real \<Rightarrow> dbl) \<Rightarrow> dbl \<Rightarrow> dbl" where
  "rounded rnd d = (case d of Finite r \<Rightarrow> rnd r | _ \<Rightarrow> d)"

text \<open>The locals again, with the two running sums as doubles.\<close>

record fp_locals =
  fp_tmpMinValue :: real
  fp_tmpMaxValue :: real
  fp_sum :: dbl
  fp_sumsq :: dbl

function loop_fp :: "(real \<Rightarrow> dbl) \<Rightarrow> int \<Rightarrow> real \<Rightarrow> real \<Rightarrow> int \<Rightarrow> fp_locals \<Rightarrow> memory
    \<Rightarrow> (fp_locals \<times> memory) option" where
  "loop_fp rnd nelements clipmin clipmax i l m =
     (if i < nelements then
        (if i < 0 \<or> int (length (image_data m)) \<le> i then None
         else
           let x = image_data m ! nat i in
           if x \<ge> clipmin \<and> x \<le> clipmax then
             let l1 = (if x < fp_tmpMinValue l then l\<lparr>fp_tmpMinValue := x\<rparr> else l);
                 l2 = (if x > fp_tmpMaxValue l1 then l1\<lparr>fp_tmpMaxValue := x\<rparr> else l1)
             in
               if INT_MAX < numGoodPixels m + 1 then None
               else
                 let m1 = m\<lparr>numGoodPixels := numGoodPixels m + 1\<rparr>;
                     l3 = l2\<lparr>fp_sum := rounded rnd (dadd (fp_sum l2) (Finite x))\<rparr>;
                     l4 = l3\<lparr>fp_sumsq :=
                            rounded rnd (dadd (fp_sumsq l3)
                                           (rounded rnd (dmul (Finite x) (Finite x))))\<rparr>
                 in loop_fp rnd nelements clipmin clipmax (i + 1) l4 m1
           else loop_fp rnd nelements clipmin clipmax (i + 1) l m)
      else Some (l, m))"
  by pat_completeness auto
termination
  by (relation "measure (\<lambda>(rnd, nelements, clipmin, clipmax, i, l, m). nat (nelements - i))") auto

declare loop_fp.simps [simp del]

definition computeMean_core_fp :: "(real \<Rightarrow> dbl) \<Rightarrow> int \<Rightarrow> real \<Rightarrow> real \<Rightarrow> memory
    \<Rightarrow> (int \<times> memory) option" where
  "computeMean_core_fp rnd nelements clipmin clipmax m =
     (let l0 = \<lparr>fp_tmpMinValue = clipmax, fp_tmpMaxValue = clipmin,
                fp_sum = Finite 0, fp_sumsq = Finite 0\<rparr> in
      case loop_fp rnd nelements clipmin clipmax 0 l0 m of
        None \<Rightarrow> None
      | Some (l, m1) \<Rightarrow>
          let m2 = m1\<lparr>minValue := fp_tmpMinValue l\<rparr>;
              m3 = m2\<lparr>maxValue := fp_tmpMaxValue l\<rparr>;
              m4 = m3\<lparr>mean := rounded rnd (ddiv_int (fp_sum l) (numGoodPixels m3))\<rparr>
          in
            if numGoodPixels m4 - 1 < INT_MIN then None
            else
              Some (1, m4\<lparr>stddev :=
                rounded rnd (dsqrt (rounded rnd (ddiv_int
                  (rounded rnd (dsub (fp_sumsq l) (rounded rnd (dmul (mean m4) (fp_sum l)))))
                  (numGoodPixels m4 - 1))))\<rparr>))"

subsection \<open>Reference notions\<close>

text \<open>
  The samples a call visits are the first \<open>nelements\<close> doubles of the buffer; the
  accepted ones are those inside the inclusive clip range.
\<close>

definition samples :: "int \<Rightarrow> memory \<Rightarrow> real list" where
  "samples nelements m = take (nat nelements) (image_data m)"

definition accepted :: "real \<Rightarrow> real \<Rightarrow> real list \<Rightarrow> real list" where
  "accepted clipmin clipmax xs = filter (\<lambda>x. clipmin \<le> x \<and> x \<le> clipmax) xs"

text \<open>
  What one pass over the accepted samples \<open>good\<close> leaves in the locals, and what the
  whole call leaves in memory, written as folds over \<open>good\<close>.
\<close>

definition pass_locals :: "real list \<Rightarrow> locals \<Rightarrow> locals" where
  "pass_locals good l =
     l\<lparr>tmpMinValue := fold min good (tmpMinValue l),
       tmpMaxValue := fold max good (tmpMaxValue l),
       sum_acc := sum_acc l + sum_list good,
       sumsq := sumsq l + (\<Sum>x\<leftarrow>good. x * x)\<rparr>"

definition core_result :: "real \<Rightarrow> real \<Rightarrow> real list \<Rightarrow> memory \<Rightarrow> memory" where
  "core_result clipmin clipmax good m =
     (let g = numGoodPixels m + int (length good);
          mu = ddiv_int (Finite (sum_list good)) g
      in m\<lparr>numGoodPixels := g,
           minValue := fold min good clipmax,
           maxValue := fold max good clipmin,
           mean := mu,
           stddev := dsqrt (ddiv_int (dsub (Finite (\<Sum>x\<leftarrow>good. x * x))
                                        (dmul mu (Finite (sum_list good)))) (g - 1))\<rparr>)"

text \<open>
  The textbook statistics: the mean, and the unbiased sample variance with its
  \<open>n - 1\<close> denominator, as a sum of squared differences from the mean.
\<close>

definition sample_mean :: "real list \<Rightarrow> real" where
  "sample_mean xs = sum_list xs / real (length xs)"

definition sample_variance :: "real list \<Rightarrow> real" where
  "sample_variance xs = (\<Sum>x\<leftarrow>xs. (x - sample_mean xs)\<^sup>2) / (real (length xs) - 1)"

text \<open>
  Exact locals seen as locals of the rounded code, and what a pass of the rounded code
  over the accepted samples leaves in its locals: the sums are folds in buffer order.
\<close>

definition exact_locals :: "locals \<Rightarrow> fp_locals" where
  "exact_locals l =
     \<lparr>fp_tmpMinValue = tmpMinValue l, fp_tmpMaxValue = tmpMaxValue l,
      fp_sum = Finite (sum_acc l), fp_sumsq = Finite (sumsq l)\<rparr>"

definition fp_pass :: "(real \<Rightarrow> dbl) \<Rightarrow> real list \<Rightarrow> fp_locals \<Rightarrow> fp_locals" where
  "fp_pass rnd good l =
     l\<lparr>fp_tmpMinValue := fold min good (fp_tmpMinValue l),
       fp_tmpMaxValue := fold max good (fp_tmpMaxValue l),
       fp_sum := fold (\<lambda>x s. rounded rnd (dadd s (Finite x))) good (fp_sum l),
       fp_sumsq := fold (\<lambda>x q. rounded rnd (dadd q (rounded rnd (dmul (Finite x) (Finite x)))))
                     good (fp_sumsq l)\<rparr>"

section \<open>The pass, step by step\<close>

lemma drop_samples_step:
  assumes "0 \<le> i" "i < nelements" "i < int (length (image_data m))"
  shows "drop (nat i) (samples nelements m) =
         image_data m ! nat i # drop (nat (i + 1)) (samples nelements m)"
proof -
  have lt: "nat i < length (samples nelements m)"
    using assms by (simp add: samples_def)
  have "nat (i + 1) = Suc (nat i)" using assms by simp
  moreover have "samples nelements m ! nat i = image_data m ! nat i"
    using assms by (simp add: samples_def)
  ultimately show ?thesis
    using Cons_nth_drop_Suc [OF lt] by simp
qed

lemma drop_samples_done:
  assumes "0 \<le> i" "\<not> i < nelements"
  shows "drop (nat i) (samples nelements m) = []"
  using assms by (simp add: samples_def)

lemma loop_done:
  "\<not> i < nelements \<Longrightarrow> loop nelements clipmin clipmax i l m = Some (l, m)"
  by (subst loop.simps) simp

lemma loop_skip:
  assumes "i < nelements" "0 \<le> i" "i < int (length (image_data m))"
    and "\<not> (clipmin \<le> image_data m ! nat i \<and> image_data m ! nat i \<le> clipmax)"
  shows "loop nelements clipmin clipmax i l m = loop nelements clipmin clipmax (i + 1) l m"
  using assms by (subst loop.simps) (auto simp add: Let_def)

lemma loop_accept:
  assumes "i < nelements" "0 \<le> i" "i < int (length (image_data m))"
    and "clipmin \<le> image_data m ! nat i" "image_data m ! nat i \<le> clipmax"
    and "numGoodPixels m < INT_MAX"
  shows "loop nelements clipmin clipmax i l m =
         loop nelements clipmin clipmax (i + 1)
           (l\<lparr>tmpMinValue := min (image_data m ! nat i) (tmpMinValue l),
              tmpMaxValue := max (image_data m ! nat i) (tmpMaxValue l),
              sum_acc := sum_acc l + image_data m ! nat i,
              sumsq := sumsq l + image_data m ! nat i * image_data m ! nat i\<rparr>)
           (m\<lparr>numGoodPixels := numGoodPixels m + 1\<rparr>)"
proof -
  have a: "(if image_data m ! nat i < tmpMinValue l
            then l\<lparr>tmpMinValue := image_data m ! nat i\<rparr> else l)
        = l\<lparr>tmpMinValue := min (image_data m ! nat i) (tmpMinValue l)\<rparr>"
    by (simp add: min_def)
  have b: "\<And>l'. (if image_data m ! nat i > tmpMaxValue l'
                 then l'\<lparr>tmpMaxValue := image_data m ! nat i\<rparr> else l')
        = l'\<lparr>tmpMaxValue := max (image_data m ! nat i) (tmpMaxValue l')\<rparr>"
    by (simp add: max_def)
  show ?thesis
    using assms by (subst loop.simps) (simp add: Let_def a b del: if_split cong: if_cong)
qed

lemma loop_overflow:
  assumes "i < nelements" "0 \<le> i" "i < int (length (image_data m))"
    and "clipmin \<le> image_data m ! nat i" "image_data m ! nat i \<le> clipmax"
    and "INT_MAX \<le> numGoodPixels m"
  shows "loop nelements clipmin clipmax i l m = None"
  using assms by (subst loop.simps) (simp add: Let_def)

lemma loop_outside:
  assumes "i < nelements" "int (length (image_data m)) \<le> i"
  shows "loop nelements clipmin clipmax i l m = None"
  using assms by (subst loop.simps) simp

text \<open>
  From index \<open>i\<close> on, inside the buffer and with room left in the counter, the pass
  returns, and it has folded exactly the accepted samples among the remaining ones.
\<close>

lemma loop_Some:
  assumes "0 \<le> i" "nelements \<le> int (length (image_data m))"
    and "numGoodPixels m
         + int (length (accepted clipmin clipmax (drop (nat i) (samples nelements m)))) \<le> INT_MAX"
  shows "loop nelements clipmin clipmax i l m =
    Some (pass_locals (accepted clipmin clipmax (drop (nat i) (samples nelements m))) l,
          m\<lparr>numGoodPixels := numGoodPixels m
             + int (length (accepted clipmin clipmax (drop (nat i) (samples nelements m))))\<rparr>)"
  using assms
proof (induction "nat (nelements - i)" arbitrary: i l m)
  case 0
  then have "\<not> i < nelements" by simp
  then show ?case
    using "0.prems" by (simp add: loop_done drop_samples_done accepted_def pass_locals_def)
next
  case (Suc k)
  then have lt: "i < nelements" by linarith
  then have inb: "i < int (length (image_data m))" using Suc.prems by simp
  note step = drop_samples_step [OF Suc.prems(1) lt inb]
  have k: "k = nat (nelements - (i + 1))" using Suc.hyps(2) by linarith
  let ?x = "image_data m ! nat i"
  let ?rest = "accepted clipmin clipmax (drop (nat (i + 1)) (samples nelements m))"
  show ?case
  proof (cases "clipmin \<le> ?x \<and> ?x \<le> clipmax")
    case False
    have eq: "accepted clipmin clipmax (drop (nat i) (samples nelements m)) = ?rest"
      using False by (subst step) (auto simp add: accepted_def)
    show ?thesis
      using Suc.hyps(1) [OF k, of m l] Suc.prems loop_skip [OF lt Suc.prems(1) inb False]
      by (simp add: eq)
  next
    case True
    have eq: "accepted clipmin clipmax (drop (nat i) (samples nelements m)) = ?x # ?rest"
      using True by (subst step) (simp add: accepted_def)
    let ?m1 = "m\<lparr>numGoodPixels := numGoodPixels m + 1\<rparr>"
    have s1: "samples nelements ?m1 = samples nelements m" by (simp add: samples_def)
    have nov: "numGoodPixels m < INT_MAX" using Suc.prems(3) by (simp add: eq)
    have ih: "loop nelements clipmin clipmax (i + 1) l' ?m1 =
       Some (pass_locals ?rest l',
             ?m1\<lparr>numGoodPixels := numGoodPixels ?m1 + int (length ?rest)\<rparr>)" for l'
      using Suc.hyps(1) [OF k, of ?m1 l'] Suc.prems by (simp add: s1 eq)
    show ?thesis
      using True
      by (simp add: loop_accept [OF lt Suc.prems(1) inb _ _ nov] ih eq pass_locals_def add.assoc)
  qed
qed

section \<open>The whole call\<close>

lemma core_Some:
  assumes "nelements \<le> int (length (image_data m))"
    and "numGoodPixels m + int (length (accepted clipmin clipmax (samples nelements m))) \<le> INT_MAX"
    and "INT_MIN < numGoodPixels m + int (length (accepted clipmin clipmax (samples nelements m)))"
  shows "computeMean_core nelements clipmin clipmax m =
         Some (1, core_result clipmin clipmax (accepted clipmin clipmax (samples nelements m)) m)"
proof -
  have "loop nelements clipmin clipmax 0
          \<lparr>tmpMinValue = clipmax, tmpMaxValue = clipmin, sum_acc = 0, sumsq = 0\<rparr> m =
        Some (pass_locals (accepted clipmin clipmax (samples nelements m))
                \<lparr>tmpMinValue = clipmax, tmpMaxValue = clipmin, sum_acc = 0, sumsq = 0\<rparr>,
              m\<lparr>numGoodPixels := numGoodPixels m
                    + int (length (accepted clipmin clipmax (samples nelements m)))\<rparr>)"
    using loop_Some [of 0 nelements m clipmin clipmax] assms by simp
  then show ?thesis
    using assms(3)
    by (simp add: computeMean_core_def core_result_def pass_locals_def Let_def)
qed

lemma length_accepted_le:
  "int (length (accepted clipmin clipmax (samples nelements m))) \<le> max 0 nelements"
proof -
  have "length (accepted clipmin clipmax (samples nelements m)) \<le> length (samples nelements m)"
    by (simp add: accepted_def)
  also have "\<dots> \<le> nat nelements" by (simp add: samples_def)
  finally show ?thesis by linarith
qed

text \<open>A call as the binding makes it: the counter enters at zero.\<close>

lemma core_Some_zero:
  assumes "nelements \<le> int (length (image_data m))" "nelements \<le> INT_MAX" "numGoodPixels m = 0"
  shows "computeMean_core nelements clipmin clipmax m =
         Some (1, core_result clipmin clipmax (accepted clipmin clipmax (samples nelements m)) m)"
proof (rule core_Some [OF assms(1)])
  show "numGoodPixels m + int (length (accepted clipmin clipmax (samples nelements m))) \<le> INT_MAX"
    using length_accepted_le [of clipmin clipmax nelements m] assms by (simp add: INT_MAX_def)
  show "INT_MIN < numGoodPixels m + int (length (accepted clipmin clipmax (samples nelements m)))"
    using assms by (simp add: INT_MIN_def)
qed

section \<open>Minimum and maximum\<close>

lemma fold_min_Min: "fold min xs (a::real) = Min (insert a (set xs))"
  using Min.set_eq_fold [of a xs] by simp

lemma fold_max_Max: "fold max xs (a::real) = Max (insert a (set xs))"
  using Max.set_eq_fold [of a xs] by simp

lemma fold_min_accepted:
  assumes "accepted clipmin clipmax xs \<noteq> []"
  shows "fold min (accepted clipmin clipmax xs) clipmax = Min (set (accepted clipmin clipmax xs))"
proof -
  let ?g = "accepted clipmin clipmax xs"
  have "\<forall>x\<in>set ?g. x \<le> clipmax" by (simp add: accepted_def)
  moreover have "set ?g \<noteq> {}" using assms by simp
  ultimately have le: "Min (set ?g) \<le> clipmax"
    by (meson List.finite_set Min_in)
  have "fold min ?g clipmax = min clipmax (Min (set ?g))"
    using assms by (simp add: fold_min_Min)
  with le show ?thesis by simp
qed

lemma fold_max_accepted:
  assumes "accepted clipmin clipmax xs \<noteq> []"
  shows "fold max (accepted clipmin clipmax xs) clipmin = Max (set (accepted clipmin clipmax xs))"
proof -
  let ?g = "accepted clipmin clipmax xs"
  have "\<forall>x\<in>set ?g. clipmin \<le> x" by (simp add: accepted_def)
  moreover have "set ?g \<noteq> {}" using assms by simp
  ultimately have le: "clipmin \<le> Max (set ?g)"
    by (meson List.finite_set Max_in)
  have "fold max ?g clipmin = max clipmin (Max (set ?g))"
    using assms by (simp add: fold_max_Max)
  with le show ?thesis by simp
qed

section \<open>Mean and standard deviation\<close>

lemma sum_sq_dev:
  "(\<Sum>x\<leftarrow>xs. (x - c)\<^sup>2) =
   (\<Sum>x\<leftarrow>xs. x * x) - 2 * c * sum_list xs + real (length xs) * c\<^sup>2"
  by (induction xs) (simp_all add: power2_eq_square algebra_simps)

lemma shortcut_numerator:
  assumes "xs \<noteq> []"
  shows "(\<Sum>x\<leftarrow>xs. x * x) - sample_mean xs * sum_list xs =
         (\<Sum>x\<leftarrow>xs. (x - sample_mean xs)\<^sup>2)"
proof -
  have n: "real (length xs) \<noteq> 0" using assms by simp
  have "real (length xs) * (sample_mean xs)\<^sup>2 = sample_mean xs * sum_list xs"
    using n by (simp add: sample_mean_def power2_eq_square)
  then show ?thesis
    by (simp add: sum_sq_dev [where xs = xs and c = "sample_mean xs"])
qed

lemma shortcut_variance:
  assumes "xs \<noteq> []"
  shows "((\<Sum>x\<leftarrow>xs. x * x) - sample_mean xs * sum_list xs) / (real (length xs) - 1) =
         sample_variance xs"
  by (simp add: shortcut_numerator [OF assms] sample_variance_def)

lemma sample_variance_nonneg:
  assumes "2 \<le> length xs"
  shows "0 \<le> sample_variance xs"
proof -
  have "0 \<le> (\<Sum>x\<leftarrow>xs. (x - sample_mean xs)\<^sup>2)"
    by (rule sum_list_nonneg) auto
  moreover have "0 < real (length xs) - 1" using assms by simp
  ultimately show ?thesis by (simp add: sample_variance_def)
qed

lemma mean_zero_entry:
  "ddiv_int (Finite (sum_list good)) (int (length good)) =
     (if length good = 0 then NaN else Finite (sample_mean good))"
  by (simp add: sample_mean_def)

lemma variance_zero_entry:
  assumes "2 \<le> length good"
  shows "ddiv_int (dsub (Finite (\<Sum>x\<leftarrow>good. x * x))
            (dmul (ddiv_int (Finite (sum_list good)) (int (length good))) (Finite (sum_list good))))
          (int (length good) - 1) = Finite (sample_variance good)"
proof -
  have ne: "good \<noteq> []" using assms by auto
  have d: "int (length good) - 1 \<noteq> 0" "int (length good) \<noteq> 0" using assms by auto
  have r: "real_of_int (int (length good) - 1) = real (length good) - 1" by simp
  show ?thesis
    using d shortcut_variance [OF ne]
    by (simp only: ddiv_int.simps dmul.simps dsub.simps if_False r sample_mean_def
          of_int_of_nat_eq)
qed

lemma stddev_zero_entry:
  "dsqrt (ddiv_int (dsub (Finite (\<Sum>x\<leftarrow>good. x * x))
            (dmul (ddiv_int (Finite (sum_list good)) (int (length good))) (Finite (sum_list good))))
          (int (length good) - 1)) =
     (if length good \<le> 1 then NaN else Finite (sqrt (sample_variance good)))"
proof -
  consider "length good = 0" | "length good = 1" | "2 \<le> length good" by linarith
  then show ?thesis
  proof cases
    case 1
    then show ?thesis by simp
  next
    case 2
    then obtain x where "good = [x]" by (cases good) auto
    then show ?thesis by simp
  next
    case 3
    have "\<not> sample_variance good < 0"
      using sample_variance_nonneg [OF 3] by simp
    then show ?thesis
      unfolding variance_zero_entry [OF 3] using 3 by simp
  qed
qed

section \<open>The binding's call\<close>

lemma size_to_int_small:
  assumes "int n \<le> INT_MAX"
  shows "size_to_int n = int n"
  using assms by (simp add: size_to_int_def INT_MAX_def Let_def)

lemma computeMean_tuple:
  assumes "int (length buf) \<le> INT_MAX"
  shows "computeMean (Some (Some buf, clipmin, clipmax)) =
     (let r = core_result clipmin clipmax (accepted clipmin clipmax buf) (entry_memory buf)
      in Some (PyTuple_idddd (numGoodPixels r) (mean r) (stddev r) (minValue r) (maxValue r)))"
proof -
  have s: "samples (int (length buf)) (entry_memory buf) = buf"
    by (simp add: samples_def entry_memory_def)
  have "computeMean_core (int (length buf)) clipmin clipmax (entry_memory buf) =
        Some (1, core_result clipmin clipmax (accepted clipmin clipmax buf) (entry_memory buf))"
    using core_Some_zero [of "int (length buf)" "entry_memory buf" clipmin clipmax] assms
    by (simp add: s) (simp add: entry_memory_def)
  then show ?thesis
    by (simp add: computeMean_def size_to_int_small [OF assms] Let_def)
qed

lemma size_to_int_le: "size_to_int n \<le> int n" "size_to_int n \<le> INT_MAX"
proof -
  define r where "r = int n mod 4294967296"
  have r: "r \<le> int n" "r < 4294967296"
    unfolding r_def by (rule zmod_le_nonneg_dividend) simp_all
  have "size_to_int n = (if r \<le> 2147483647 then r else r - 4294967296)"
    by (simp add: size_to_int_def Let_def INT_MAX_def r_def)
  then show "size_to_int n \<le> int n" "size_to_int n \<le> INT_MAX"
    using r by (auto simp add: INT_MAX_def)
qed

lemma computeMean_returns_tuple:
  "\<exists>n mu sd lo hi. computeMean (Some (Some buf, clipmin, clipmax)) =
     Some (PyTuple_idddd n mu sd lo hi)"
proof -
  have "computeMean_core (size_to_int (length buf)) clipmin clipmax (entry_memory buf) =
        Some (1, core_result clipmin clipmax
                   (accepted clipmin clipmax (samples (size_to_int (length buf)) (entry_memory buf)))
                   (entry_memory buf))"
    by (rule core_Some_zero) (simp_all add: size_to_int_le entry_memory_def)
  then show ?thesis by (simp add: computeMean_def)
qed

lemma core_result_zero_entry:
  assumes "numGoodPixels m = 0"
  shows "core_result clipmin clipmax good m =
     m\<lparr>numGoodPixels := int (length good),
       minValue := fold min good clipmax,
       maxValue := fold max good clipmin,
       mean := (if length good = 0 then NaN else Finite (sample_mean good)),
       stddev := (if length good \<le> 1 then NaN else Finite (sqrt (sample_variance good)))\<rparr>"
  unfolding core_result_def Let_def assms
  by (simp only: add_0 stddev_zero_entry) (simp only: mean_zero_entry)

section \<open>Reordering the samples\<close>

lemma sum_list_map_mset:
  fixes f :: "real \<Rightarrow> real"
  assumes "mset xs = mset ys"
  shows "sum_list (map f xs) = sum_list (map f ys)"
proof -
  have "sum_list (map f xs) = sum_mset (image_mset f (mset xs))"
    by (metis mset_map sum_mset_sum_list)
  also have "\<dots> = sum_mset (image_mset f (mset ys))" by (simp add: assms)
  also have "\<dots> = sum_list (map f ys)"
    by (metis mset_map sum_mset_sum_list)
  finally show ?thesis .
qed

lemma core_result_mset:
  assumes "mset good = mset good'"
  shows "core_result clipmin clipmax good m = core_result clipmin clipmax good' m"
proof -
  have len: "length good = length good'" by (rule mset_eq_length [OF assms])
  have st: "set good = set good'" by (rule mset_eq_setD [OF assms])
  have s1: "sum_list good = sum_list good'"
    using sum_list_map_mset [OF assms, of "\<lambda>x. x"] by simp
  have s2: "(\<Sum>x\<leftarrow>good. x * x) = (\<Sum>x\<leftarrow>good'. x * x)"
    by (rule sum_list_map_mset [OF assms])
  show ?thesis
    by (simp add: core_result_def fold_min_Min fold_max_Max len st s1 s2)
qed

lemma core_result_image_data:
  "core_result clipmin clipmax good (m\<lparr>image_data := ys\<rparr>) =
   (core_result clipmin clipmax good m)\<lparr>image_data := ys\<rparr>"
  by (simp add: core_result_def Let_def)

text \<open>In exact arithmetic all five outputs are the same on a permuted buffer.\<close>

lemma exact_permutation:
  assumes "mset ys = mset (image_data m)"
    and "nelements = int (length (image_data m))"
    and "nelements \<le> INT_MAX"
    and "numGoodPixels m = 0"
  shows "\<exists>r r'. computeMean_core nelements clipmin clipmax m = Some (1, r)
           \<and> computeMean_core nelements clipmin clipmax (m\<lparr>image_data := ys\<rparr>) = Some (1, r')
           \<and> numGoodPixels r' = numGoodPixels r \<and> mean r' = mean r \<and> stddev r' = stddev r
           \<and> minValue r' = minValue r \<and> maxValue r' = maxValue r"
proof -
  let ?m' = "m\<lparr>image_data := ys\<rparr>"
  have len: "length ys = length (image_data m)" by (rule mset_eq_length [OF assms(1)])
  have s: "samples nelements m = image_data m" by (simp add: samples_def assms(2))
  have s': "samples nelements ?m' = ys" by (simp add: samples_def assms(2) len)
  have le: "nelements \<le> int (length (image_data m))"
      "nelements \<le> int (length (image_data ?m'))"
    by (simp_all add: assms(2) len)
  have cnt': "numGoodPixels ?m' = 0" by (simp add: assms(4))
  have run: "computeMean_core nelements clipmin clipmax m =
               Some (1, core_result clipmin clipmax (accepted clipmin clipmax (image_data m)) m)"
    using core_Some_zero [OF le(1) assms(3,4), of clipmin clipmax] unfolding s .
  have run': "computeMean_core nelements clipmin clipmax ?m' =
               Some (1, core_result clipmin clipmax (accepted clipmin clipmax ys) ?m')"
    using core_Some_zero [OF le(2) assms(3) cnt', of clipmin clipmax] unfolding s' .
  have "mset (accepted clipmin clipmax ys) = mset (accepted clipmin clipmax (image_data m))"
    by (simp add: accepted_def assms(1))
  then have "core_result clipmin clipmax (accepted clipmin clipmax ys) ?m' =
        (core_result clipmin clipmax (accepted clipmin clipmax (image_data m)) m)\<lparr>image_data := ys\<rparr>"
    by (simp only: core_result_image_data core_result_mset [of "accepted clipmin clipmax ys"])
  then show ?thesis
    using run run' by simp
qed

section \<open>Runs on concrete buffers\<close>

text \<open>
  The scenarios of the specification, and the branches where the behaviour of the C code
  is undefined or the binding gives up, evaluated from the definitions one loop step at a
  time.
\<close>

lemmas run_defs =
  computeMean_def computeMean_core_def size_to_int_def entry_memory_def
  loop_accept loop_skip loop_done loop_overflow loop_outside
  INT_MAX_def INT_MIN_def Let_def

lemma example_unclipped:
  "computeMean (Some (Some [1, 2, 3, 4, 5], 0, 10)) =
     Some (PyTuple_idddd 5 (Finite 3) (Finite (sqrt (5 / 2))) 1 5)"
  by (simp add: run_defs)

lemma example_clipped:
  "computeMean (Some (Some [1, 2, 3, 4, 5], 2, 4)) =
     Some (PyTuple_idddd 3 (Finite 3) (Finite 1) 2 4)"
  by (simp add: run_defs)

lemma example_single:
  "computeMean (Some (Some [10], 0, 20)) = Some (PyTuple_idddd 1 (Finite 10) NaN 10 10)"
  by (simp add: run_defs)

lemma example_empty:
  "computeMean (Some (Some [], clipmin, clipmax)) =
     Some (PyTuple_idddd 0 NaN NaN clipmax clipmin)"
  by (simp add: run_defs)

lemma example_one_in_range:
  "computeMean (Some (Some [5, 15, 25], 10, 20)) = Some (PyTuple_idddd 1 (Finite 15) NaN 15 15)"
  by (simp add: run_defs)

lemma example_no_arguments:
  "computeMean None = Some PyNULL" "computeMean (Some (None, clipmin, clipmax)) = Some PyNULL"
  by (simp_all add: computeMean_def)

lemma example_counter_overflow:
  "computeMean_core 1 0 2
     \<lparr>image_data = [1], numGoodPixels = INT_MAX, mean = Finite 0, stddev = Finite 0,
      minValue = 0, maxValue = 0\<rparr> = None"
  by (simp add: run_defs)

lemma example_read_outside:
  "computeMean_core 2 0 2 (entry_memory [1]) = None"
  by (simp add: run_defs)

lemma example_infinite_mean:
  "map_option (mean \<circ> snd) (computeMean_core 1 0 2
     \<lparr>image_data = [1], numGoodPixels = - 1, mean = Finite 0, stddev = Finite 0,
      minValue = 0, maxValue = 0\<rparr>) = Some PInf"
  by (simp add: run_defs)

section \<open>Double arithmetic\<close>

text \<open>Rounding a number whose binade is known, and the roundings used below.\<close>

lemma round_double_binade:
  fixes x :: real
  assumes "2 powr of_int e \<le> \<bar>x\<bar>" "\<bar>x\<bar> < 2 powr of_int (e + 1)" "- 1022 \<le> e"
    and "rne (x / 2 powr of_int (e - 52)) = n"
    and "\<bar>real_of_int n * 2 powr of_int (e - 52)\<bar> < 2 powr 1024"
  shows "round_double x = Finite (real_of_int n * 2 powr of_int (e - 52))"
proof -
  have "0 < (2::real) powr of_int e" by simp
  then have pos: "0 < \<bar>x\<bar>" using assms(1) by linarith
  then have nz: "x \<noteq> 0" by simp
  have "\<lfloor>log 2 \<bar>x\<bar>\<rfloor> = e"
    using floor_log_eq_powr_iff [of "\<bar>x\<bar>" 2 e] pos assms(1,2) by simp
  then have e: "max \<lfloor>log 2 \<bar>x\<bar>\<rfloor> (- 1022) = e" using assms(3) by simp
  have big: "\<not> 2 powr 1024 \<le> \<bar>real_of_int n * 2 powr of_int (e - 52)\<bar>"
    using assms(5) by linarith
  show ?thesis
    unfolding round_double_def Let_def e assms(4)
    by (simp only: nz big if_False)
qed

lemma rd_1e16: "round_double 10000000000000000 = Finite 10000000000000000"
  using round_double_binade [of 53 10000000000000000 5000000000000000]
  by (simp add: rne_def)

lemma rd_1e16_plus_1: "round_double 10000000000000001 = Finite 10000000000000000"
  using round_double_binade [of 53 10000000000000001 5000000000000000]
  by (simp add: rne_def)

lemma rd_1: "round_double 1 = Finite 1"
  using round_double_binade [of 0 1 4503599627370496]
  by (simp add: rne_def powr_neg_numeral)

lemma rd_third: "round_double (1 / 3) = Finite (6004799503160661 / 18014398509481984)"
  using round_double_binade [of "- 2" "1 / 3" 6004799503160661]
  by (simp add: rne_def powr_neg_numeral)

lemma rd_0: "round_double 0 = Finite 0"
  by (simp add: round_double_def)

lemma rd_minus_1e16: "round_double (- 10000000000000000) = Finite (- 10000000000000000)"
  using round_double_binade [of 53 "- 10000000000000000" "- 5000000000000000"]
  by (simp add: rne_def)

text \<open>The rounded pass, step by step, as for the exact one.\<close>

lemma rounded_Finite [simp]: "rounded Finite d = d"
  by (cases d) (simp_all add: rounded_def)

lemma rounded_simps [simp]:
  "rounded rnd (Finite r) = rnd r" "rounded rnd NaN = NaN"
  "rounded rnd PInf = PInf" "rounded rnd NInf = NInf"
  by (simp_all add: rounded_def)

lemma loop_fp_done:
  "\<not> i < nelements \<Longrightarrow> loop_fp rnd nelements clipmin clipmax i l m = Some (l, m)"
  by (subst loop_fp.simps) simp

lemma loop_fp_skip:
  assumes "i < nelements" "0 \<le> i" "i < int (length (image_data m))"
    and "\<not> (clipmin \<le> image_data m ! nat i \<and> image_data m ! nat i \<le> clipmax)"
  shows "loop_fp rnd nelements clipmin clipmax i l m =
         loop_fp rnd nelements clipmin clipmax (i + 1) l m"
  using assms by (subst loop_fp.simps) (auto simp add: Let_def)

lemma loop_fp_accept:
  assumes "i < nelements" "0 \<le> i" "i < int (length (image_data m))"
    and "clipmin \<le> image_data m ! nat i" "image_data m ! nat i \<le> clipmax"
    and "numGoodPixels m < INT_MAX"
  shows "loop_fp rnd nelements clipmin clipmax i l m =
         loop_fp rnd nelements clipmin clipmax (i + 1)
           (l\<lparr>fp_tmpMinValue := min (image_data m ! nat i) (fp_tmpMinValue l),
              fp_tmpMaxValue := max (image_data m ! nat i) (fp_tmpMaxValue l),
              fp_sum := rounded rnd (dadd (fp_sum l) (Finite (image_data m ! nat i))),
              fp_sumsq := rounded rnd (dadd (fp_sumsq l)
                 (rounded rnd (dmul (Finite (image_data m ! nat i))
                                    (Finite (image_data m ! nat i)))))\<rparr>)
           (m\<lparr>numGoodPixels := numGoodPixels m + 1\<rparr>)"
proof -
  have a: "(if image_data m ! nat i < fp_tmpMinValue l
            then l\<lparr>fp_tmpMinValue := image_data m ! nat i\<rparr> else l)
        = l\<lparr>fp_tmpMinValue := min (image_data m ! nat i) (fp_tmpMinValue l)\<rparr>"
    by (simp add: min_def)
  have b: "\<And>l'. (if image_data m ! nat i > fp_tmpMaxValue l'
                 then l'\<lparr>fp_tmpMaxValue := image_data m ! nat i\<rparr> else l')
        = l'\<lparr>fp_tmpMaxValue := max (image_data m ! nat i) (fp_tmpMaxValue l')\<rparr>"
    by (simp add: max_def)
  show ?thesis
    using assms
    by (subst loop_fp.simps) (simp add: Let_def a b del: if_split dmul.simps cong: if_cong)
qed

lemma loop_fp_overflow:
  assumes "i < nelements" "0 \<le> i" "i < int (length (image_data m))"
    and "clipmin \<le> image_data m ! nat i" "image_data m ! nat i \<le> clipmax"
    and "INT_MAX \<le> numGoodPixels m"
  shows "loop_fp rnd nelements clipmin clipmax i l m = None"
  using assms by (subst loop_fp.simps) (simp add: Let_def)

lemma loop_fp_outside:
  assumes "i < nelements" "int (length (image_data m)) \<le> i"
  shows "loop_fp rnd nelements clipmin clipmax i l m = None"
  using assms by (subst loop_fp.simps) simp

text \<open>Without rounding the code in double arithmetic is the code in exact arithmetic.\<close>

lemma loop_fp_exact:
  "loop_fp Finite nelements clipmin clipmax i (exact_locals l) m =
   map_option (\<lambda>(l', m'). (exact_locals l', m')) (loop nelements clipmin clipmax i l m)"
proof (induction "nat (nelements - i)" arbitrary: i l m)
  case 0
  then have "\<not> i < nelements" by simp
  then show ?case by (simp add: loop_done loop_fp_done)
next
  case (Suc k)
  then have lt: "i < nelements" by linarith
  have k: "k = nat (nelements - (i + 1))" using Suc.hyps(2) by linarith
  note ih = Suc.hyps(1) [OF k]
  show ?case
  proof (cases "0 \<le> i \<and> i < int (length (image_data m))")
    case False
    then show ?thesis
      using lt by (subst loop_fp.simps, subst loop.simps) auto
  next
    case inb: True
    let ?x = "image_data m ! nat i"
    show ?thesis
    proof (cases "clipmin \<le> ?x \<and> ?x \<le> clipmax")
      case False
      then show ?thesis
        using lt inb ih [of l m] by (simp add: loop_skip loop_fp_skip)
    next
      case True
      show ?thesis
      proof (cases "numGoodPixels m < INT_MAX")
        case False
        then show ?thesis
          using lt inb True by (simp add: loop_overflow loop_fp_overflow)
      next
        case nov: True
        have e: "(exact_locals l)\<lparr>fp_tmpMinValue := min ?x (fp_tmpMinValue (exact_locals l)),
              fp_tmpMaxValue := max ?x (fp_tmpMaxValue (exact_locals l)),
              fp_sum := rounded Finite (dadd (fp_sum (exact_locals l)) (Finite ?x)),
              fp_sumsq := rounded Finite (dadd (fp_sumsq (exact_locals l))
                 (rounded Finite (dmul (Finite ?x) (Finite ?x))))\<rparr>
            = exact_locals (l\<lparr>tmpMinValue := min ?x (tmpMinValue l),
                 tmpMaxValue := max ?x (tmpMaxValue l),
                 sum_acc := sum_acc l + ?x, sumsq := sumsq l + ?x * ?x\<rparr>)"
          by (simp add: exact_locals_def)
        show ?thesis
          using lt inb True nov
          by (simp only: loop_accept loop_fp_accept e ih)
      qed
    qed
  qed
qed

lemma computeMean_core_fp_exact:
  "computeMean_core_fp Finite nelements clipmin clipmax m =
   computeMean_core nelements clipmin clipmax m"
proof -
  have l0: "\<lparr>fp_tmpMinValue = clipmax, fp_tmpMaxValue = clipmin,
             fp_sum = Finite 0, fp_sumsq = Finite 0\<rparr> =
        exact_locals \<lparr>tmpMinValue = clipmax, tmpMaxValue = clipmin, sum_acc = 0, sumsq = 0\<rparr>"
    by (simp add: exact_locals_def)
  show ?thesis
    unfolding computeMean_core_fp_def computeMean_core_def Let_def l0 loop_fp_exact
    by (cases "loop nelements clipmin clipmax 0
          \<lparr>tmpMinValue = clipmax, tmpMaxValue = clipmin, sum_acc = 0, sumsq = 0\<rparr> m")
       (auto simp add: exact_locals_def)
qed

text \<open>
  Whatever the rounding, the pass returns, and count, minimum and maximum are those of
  the accepted samples: they come from comparisons alone.
\<close>

lemma loop_fp_Some:
  assumes "0 \<le> i" "nelements \<le> int (length (image_data m))"
    and "numGoodPixels m
         + int (length (accepted clipmin clipmax (drop (nat i) (samples nelements m)))) \<le> INT_MAX"
  shows "loop_fp rnd nelements clipmin clipmax i l m =
    Some (fp_pass rnd (accepted clipmin clipmax (drop (nat i) (samples nelements m))) l,
          m\<lparr>numGoodPixels := numGoodPixels m
             + int (length (accepted clipmin clipmax (drop (nat i) (samples nelements m))))\<rparr>)"
  using assms
proof (induction "nat (nelements - i)" arbitrary: i l m)
  case 0
  then have "\<not> i < nelements" by simp
  then show ?case
    using "0.prems" by (simp add: loop_fp_done drop_samples_done accepted_def fp_pass_def)
next
  case (Suc k)
  then have lt: "i < nelements" by linarith
  then have inb: "i < int (length (image_data m))" using Suc.prems by simp
  note step = drop_samples_step [OF Suc.prems(1) lt inb]
  have k: "k = nat (nelements - (i + 1))" using Suc.hyps(2) by linarith
  let ?x = "image_data m ! nat i"
  let ?rest = "accepted clipmin clipmax (drop (nat (i + 1)) (samples nelements m))"
  show ?case
  proof (cases "clipmin \<le> ?x \<and> ?x \<le> clipmax")
    case False
    have eq: "accepted clipmin clipmax (drop (nat i) (samples nelements m)) = ?rest"
      using False by (subst step) (auto simp add: accepted_def)
    show ?thesis
      using Suc.hyps(1) [OF k, of m l] Suc.prems loop_fp_skip [OF lt Suc.prems(1) inb False]
      by (simp add: eq)
  next
    case True
    have eq: "accepted clipmin clipmax (drop (nat i) (samples nelements m)) = ?x # ?rest"
      using True by (subst step) (simp add: accepted_def)
    let ?m1 = "m\<lparr>numGoodPixels := numGoodPixels m + 1\<rparr>"
    have s1: "samples nelements ?m1 = samples nelements m" by (simp add: samples_def)
    have nov: "numGoodPixels m < INT_MAX" using Suc.prems(3) by (simp add: eq)
    have ih: "loop_fp rnd nelements clipmin clipmax (i + 1) l' ?m1 =
       Some (fp_pass rnd ?rest l',
             ?m1\<lparr>numGoodPixels := numGoodPixels ?m1 + int (length ?rest)\<rparr>)" for l'
      using Suc.hyps(1) [OF k, of ?m1 l'] Suc.prems by (simp add: s1 eq)
    show ?thesis
      using True
      by (simp add: loop_fp_accept [OF lt Suc.prems(1) inb _ _ nov] ih eq fp_pass_def add.assoc
            del: dmul.simps)
  qed
qed

lemma core_fp_count_min_max:
  assumes "nelements \<le> int (length (image_data m))" "nelements \<le> INT_MAX" "numGoodPixels m = 0"
  shows "\<exists>r. computeMean_core_fp rnd nelements clipmin clipmax m = Some (1, r)
           \<and> numGoodPixels r = int (length (accepted clipmin clipmax (samples nelements m)))
           \<and> minValue r = Min (insert clipmax (set (accepted clipmin clipmax (samples nelements m))))
           \<and> maxValue r = Max (insert clipmin (set (accepted clipmin clipmax (samples nelements m))))"
proof -
  let ?good = "accepted clipmin clipmax (samples nelements m)"
  let ?l0 = "\<lparr>fp_tmpMinValue = clipmax, fp_tmpMaxValue = clipmin,
              fp_sum = Finite 0, fp_sumsq = Finite 0\<rparr>"
  have cnt: "numGoodPixels m + int (length ?good) \<le> INT_MAX"
    using length_accepted_le [of clipmin clipmax nelements m] assms(2,3)
    by (simp add: INT_MAX_def)
  have pass: "loop_fp rnd nelements clipmin clipmax 0 ?l0 m =
        Some (fp_pass rnd ?good ?l0, m\<lparr>numGoodPixels := numGoodPixels m + int (length ?good)\<rparr>)"
    using loop_fp_Some [of 0 nelements m clipmin clipmax rnd ?l0] assms(1) cnt by simp
  show ?thesis
    using assms(3)
    by (simp add: computeMean_core_fp_def pass Let_def fp_pass_def fold_min_Min fold_max_Max
          INT_MIN_def)
qed

lemmas fp_run_defs =
  computeMean_core_fp_def entry_memory_def
  loop_fp_accept loop_fp_skip loop_fp_done loop_fp_overflow loop_fp_outside
  rd_0 rd_1 rd_1e16 rd_1e16_plus_1 rd_minus_1e16 rd_third
  INT_MAX_def INT_MIN_def Let_def

section \<open>Claims\<close>

text \<open>
  C1. Clipping is inclusive at both ends. The accepted samples are exactly the visited
  samples \<open>x\<close> with \<open>clipmin \<le> x \<le> clipmax\<close>, so a sample equal to a bound is kept
  whenever the range is not empty. After the pass the counter has grown by their number,
  \<open>sum\<close> is their sum, \<open>sumsq\<close> the sum of their squares, and the running minimum and
  maximum are taken over them and the seed. A sample outside the range contributes
  nothing: the pass over the buffer with those samples removed ends with the same locals
  and the same outputs.
\<close>

theorem C1_clipping_inclusive:
  assumes "nelements \<le> int (length (image_data m))"
    and "numGoodPixels m + int (length (accepted clipmin clipmax (samples nelements m))) \<le> INT_MAX"
  shows "set (accepted clipmin clipmax (samples nelements m)) =
           {x \<in> set (samples nelements m). clipmin \<le> x \<and> x \<le> clipmax}
       \<and> (\<exists>l m'. loop nelements clipmin clipmax 0
                    \<lparr>tmpMinValue = clipmax, tmpMaxValue = clipmin, sum_acc = 0, sumsq = 0\<rparr> m
                  = Some (l, m')
            \<and> numGoodPixels m' = numGoodPixels m
                 + int (length (accepted clipmin clipmax (samples nelements m)))
            \<and> sum_acc l = sum_list (accepted clipmin clipmax (samples nelements m))
            \<and> sumsq l = (\<Sum>x\<leftarrow>accepted clipmin clipmax (samples nelements m). x * x)
            \<and> tmpMinValue l = Min (insert clipmax (set (accepted clipmin clipmax (samples nelements m))))
            \<and> tmpMaxValue l = Max (insert clipmin (set (accepted clipmin clipmax (samples nelements m))))
            \<and> loop (int (length (accepted clipmin clipmax (samples nelements m)))) clipmin clipmax 0
                    \<lparr>tmpMinValue = clipmax, tmpMaxValue = clipmin, sum_acc = 0, sumsq = 0\<rparr>
                    (m\<lparr>image_data := accepted clipmin clipmax (samples nelements m)\<rparr>)
                  = Some (l, m'\<lparr>image_data := accepted clipmin clipmax (samples nelements m)\<rparr>))"
proof -
  let ?good = "accepted clipmin clipmax (samples nelements m)"
  let ?l0 = "\<lparr>tmpMinValue = clipmax, tmpMaxValue = clipmin, sum_acc = 0, sumsq = 0\<rparr>"
  let ?m2 = "m\<lparr>image_data := ?good\<rparr>"
  have run: "loop nelements clipmin clipmax 0 ?l0 m =
        Some (pass_locals ?good ?l0, m\<lparr>numGoodPixels := numGoodPixels m + int (length ?good)\<rparr>)"
    using loop_Some [of 0 nelements m clipmin clipmax] assms by simp
  have s2: "samples (int (length ?good)) ?m2 = ?good" by (simp add: samples_def)
  have idem: "accepted clipmin clipmax ?good = ?good" by (simp add: accepted_def)
  have run2: "loop (int (length ?good)) clipmin clipmax 0 ?l0 ?m2 =
        Some (pass_locals ?good ?l0, ?m2\<lparr>numGoodPixels := numGoodPixels ?m2 + int (length ?good)\<rparr>)"
    using loop_Some [of 0 "int (length ?good)" ?m2 clipmin clipmax ?l0] assms(2)
    by (simp add: s2 idem)
  have "set ?good = {x \<in> set (samples nelements m). clipmin \<le> x \<and> x \<le> clipmax}"
    by (simp add: accepted_def)
  then show ?thesis
    using run run2 by (simp add: pass_locals_def fold_min_Min fold_max_Max)
qed

theorem C1_clipping_inclusive_witness:
  "set (accepted 2 4 (samples 5 (entry_memory [1, 2, 3, 4, 5]))) = {2, 3, 4}
   \<and> (\<exists>l m'. loop 5 2 4 0 \<lparr>tmpMinValue = 4, tmpMaxValue = 2, sum_acc = 0, sumsq = 0\<rparr>
                 (entry_memory [1, 2, 3, 4, 5]) = Some (l, m')
        \<and> numGoodPixels m' = 3 \<and> sum_acc l = 9 \<and> sumsq l = 29
        \<and> tmpMinValue l = 2 \<and> tmpMaxValue l = 4)"
proof -
  have g: "accepted 2 4 (samples 5 (entry_memory [1, 2, 3, 4, 5])) = [2, 3, 4]"
    by (simp add: accepted_def samples_def entry_memory_def)
  have h1: "5 \<le> int (length (image_data (entry_memory [1, 2, 3, 4, 5])))"
    by (simp add: entry_memory_def)
  have h2: "numGoodPixels (entry_memory [1, 2, 3, 4, 5])
      + int (length (accepted 2 4 (samples 5 (entry_memory [1, 2, 3, 4, 5])))) \<le> INT_MAX"
    by (simp add: g) (simp add: entry_memory_def INT_MAX_def)
  show ?thesis
    using C1_clipping_inclusive [OF h1 h2] unfolding g
    by (auto simp add: entry_memory_def)
qed

text \<open>
  C2, in the form the code satisfies. The core sets \<open>sum\<close> and \<open>sumsq\<close> to zero
  before the pass, but not the counter: it adds one to the location behind \<open>numGoodPixels\<close> for each accepted
  sample, so the value it leaves there is the value on entry plus the number of samples
  in the inclusive range. The binding \<open>computeMean\<close> sets the location to zero before
  the call, and the count it returns is exactly the number of samples in the range.
\<close>

theorem C2_count_added_to_entry:
  assumes "nelements \<le> int (length (image_data m))"
    and "numGoodPixels m + int (length (accepted clipmin clipmax (samples nelements m))) \<le> INT_MAX"
    and "INT_MIN < numGoodPixels m + int (length (accepted clipmin clipmax (samples nelements m)))"
    and "int (length buf) \<le> INT_MAX"
  shows "(\<exists>l m1. loop nelements clipmin clipmax 0
                    \<lparr>tmpMinValue = clipmax, tmpMaxValue = clipmin, sum_acc = 0, sumsq = 0\<rparr> m
                  = Some (l, m1)
            \<and> sum_acc l = 0 + sum_list (accepted clipmin clipmax (samples nelements m))
            \<and> sumsq l = 0 + (\<Sum>x\<leftarrow>accepted clipmin clipmax (samples nelements m). x * x)
            \<and> numGoodPixels m1 = numGoodPixels m
                 + int (length (accepted clipmin clipmax (samples nelements m))))
       \<and> (\<exists>m'. computeMean_core nelements clipmin clipmax m = Some (1, m')
            \<and> numGoodPixels m' = numGoodPixels m
                 + int (length (accepted clipmin clipmax (samples nelements m))))
       \<and> numGoodPixels (entry_memory buf) = 0
       \<and> (\<exists>mu sd lo hi. computeMean (Some (Some buf, clipmin, clipmax)) =
            Some (PyTuple_idddd (int (length (accepted clipmin clipmax buf))) mu sd lo hi))"
proof -
  have "loop nelements clipmin clipmax 0
          \<lparr>tmpMinValue = clipmax, tmpMaxValue = clipmin, sum_acc = 0, sumsq = 0\<rparr> m =
        Some (pass_locals (accepted clipmin clipmax (samples nelements m))
                \<lparr>tmpMinValue = clipmax, tmpMaxValue = clipmin, sum_acc = 0, sumsq = 0\<rparr>,
              m\<lparr>numGoodPixels := numGoodPixels m
                    + int (length (accepted clipmin clipmax (samples nelements m)))\<rparr>)"
    using loop_Some [of 0 nelements m clipmin clipmax] assms by simp
  then have a: "\<exists>l m1. loop nelements clipmin clipmax 0
                    \<lparr>tmpMinValue = clipmax, tmpMaxValue = clipmin, sum_acc = 0, sumsq = 0\<rparr> m
                  = Some (l, m1)
            \<and> sum_acc l = 0 + sum_list (accepted clipmin clipmax (samples nelements m))
            \<and> sumsq l = 0 + (\<Sum>x\<leftarrow>accepted clipmin clipmax (samples nelements m). x * x)
            \<and> numGoodPixels m1 = numGoodPixels m
                 + int (length (accepted clipmin clipmax (samples nelements m)))"
    by (simp add: pass_locals_def)
  have b: "\<exists>m'. computeMean_core nelements clipmin clipmax m = Some (1, m')
            \<and> numGoodPixels m' = numGoodPixels m
                 + int (length (accepted clipmin clipmax (samples nelements m)))"
    using core_Some [OF assms(1,2,3)] by (simp add: core_result_def Let_def)
  have c: "numGoodPixels (entry_memory buf) = 0" by (simp add: entry_memory_def)
  have d: "\<exists>mu sd lo hi. computeMean (Some (Some buf, clipmin, clipmax)) =
            Some (PyTuple_idddd (int (length (accepted clipmin clipmax buf))) mu sd lo hi)"
    using computeMean_tuple [OF assms(4)] by (simp add: core_result_def Let_def entry_memory_def)
  from a b c d show ?thesis by blast
qed

text \<open>
  The claim as written, that the count does not depend on the value on entry, fails: with
  5 in the location and one accepted sample the core leaves 6.
\<close>

theorem C2_counterexample:
  "map_option (numGoodPixels \<circ> snd)
     (computeMean_core 1 0 2
        \<lparr>image_data = [1], numGoodPixels = 5, mean = Finite 0, stddev = Finite 0,
         minValue = 0, maxValue = 0\<rparr>) = Some 6
   \<and> int (length (accepted 0 2 (samples 1
        \<lparr>image_data = [1], numGoodPixels = 5, mean = Finite 0, stddev = Finite 0,
         minValue = 0, maxValue = 0\<rparr>))) = 1"
  by (simp add: run_defs accepted_def samples_def)

theorem C2_count_added_to_entry_witness:
  "(\<exists>m'. computeMean_core 5 2 4
        \<lparr>image_data = [1, 2, 3, 4, 5], numGoodPixels = 5, mean = Finite 0, stddev = Finite 0,
         minValue = 0, maxValue = 0\<rparr> = Some (1, m') \<and> numGoodPixels m' = 5 + 3)
   \<and> (\<exists>mu sd lo hi. computeMean (Some (Some [1, 2, 3, 4, 5], 2, 4)) =
            Some (PyTuple_idddd 3 mu sd lo hi))"
proof -
  let ?m = "\<lparr>image_data = [1, 2, 3, 4, 5 :: real], numGoodPixels = 5, mean = Finite 0,
             stddev = Finite 0, minValue = 0, maxValue = 0\<rparr>"
  have g: "accepted 2 4 (samples 5 ?m) = [2, 3, 4]"
    by (simp add: accepted_def samples_def)
  have g2: "accepted 2 4 [1, 2, 3, 4, 5] = [2, 3, 4]"
    by (simp add: accepted_def)
  have h1: "5 \<le> int (length (image_data ?m))" by simp
  have h2: "numGoodPixels ?m + int (length (accepted 2 4 (samples 5 ?m))) \<le> INT_MAX"
    by (simp add: g INT_MAX_def)
  have h3: "INT_MIN < numGoodPixels ?m + int (length (accepted 2 4 (samples 5 ?m)))"
    by (simp add: g INT_MIN_def)
  have h4: "int (length [1, 2, 3, 4, 5 :: real]) \<le> INT_MAX"
    by (simp add: INT_MAX_def)
  show ?thesis
    using C2_count_added_to_entry [OF h1 h2 h3 h4] unfolding g g2 by simp
qed

text \<open>
  C3. If no sample is accepted, the count is zero and the seeds come back unchanged and
  therefore swapped: \<open>minValue\<close> is \<open>clipmax\<close> and \<open>maxValue\<close> is \<open>clipmin\<close>. The empty
  sequence is one such call.
\<close>

theorem C3_no_accepted_sentinels:
  assumes "nelements \<le> int (length (image_data m))"
    and "numGoodPixels m = 0"
    and "accepted clipmin clipmax (samples nelements m) = []"
  shows "(\<exists>m'. computeMean_core nelements clipmin clipmax m = Some (1, m')
            \<and> numGoodPixels m' = 0 \<and> minValue m' = clipmax \<and> maxValue m' = clipmin)
       \<and> (\<exists>m'. computeMean_core 0 clipmin clipmax (entry_memory []) = Some (1, m')
            \<and> numGoodPixels m' = 0 \<and> minValue m' = clipmax \<and> maxValue m' = clipmin)"
proof -
  have "computeMean_core nelements clipmin clipmax m =
        Some (1, core_result clipmin clipmax (accepted clipmin clipmax (samples nelements m)) m)"
    using assms by (intro core_Some) (simp_all add: INT_MAX_def INT_MIN_def)
  moreover have "computeMean_core 0 clipmin clipmax (entry_memory []) =
        Some (1, core_result clipmin clipmax
                   (accepted clipmin clipmax (samples 0 (entry_memory []))) (entry_memory []))"
    by (intro core_Some) (simp_all add: INT_MAX_def INT_MIN_def entry_memory_def samples_def accepted_def)
  moreover have "accepted clipmin clipmax (samples 0 (entry_memory [])) = []"
    by (simp add: samples_def accepted_def)
  ultimately show ?thesis
    using assms by (simp add: core_result_def Let_def entry_memory_def)
qed

theorem C3_no_accepted_sentinels_witness:
  "\<exists>m'. computeMean_core 3 10 20 (entry_memory [5, 25, 30]) = Some (1, m')
         \<and> numGoodPixels m' = 0 \<and> minValue m' = 20 \<and> maxValue m' = 10"
proof -
  have h1: "3 \<le> int (length (image_data (entry_memory [5, 25, 30])))"
    by (simp add: entry_memory_def)
  have h2: "numGoodPixels (entry_memory [5, 25, 30]) = 0"
    by (simp add: entry_memory_def)
  have h3: "accepted 10 20 (samples 3 (entry_memory [5, 25, 30])) = []"
    by (simp add: accepted_def samples_def entry_memory_def)
  show ?thesis
    using C3_no_accepted_sentinels [OF h1 h2 h3] by simp
qed

text \<open>
  C4. With at least one accepted sample, \<open>minValue\<close> and \<open>maxValue\<close> are samples of the
  sequence, lie in the clip range, are the minimum and the maximum of the accepted samples,
  and \<open>minValue \<le> maxValue\<close>.
\<close>

theorem C4_min_max_of_accepted:
  assumes "nelements \<le> int (length (image_data m))"
    and "nelements \<le> INT_MAX"
    and "numGoodPixels m = 0"
    and "accepted clipmin clipmax (samples nelements m) \<noteq> []"
  shows "\<exists>m'. computeMean_core nelements clipmin clipmax m = Some (1, m')
           \<and> 1 \<le> numGoodPixels m'
           \<and> minValue m' \<in> set (samples nelements m) \<and> maxValue m' \<in> set (samples nelements m)
           \<and> clipmin \<le> minValue m' \<and> minValue m' \<le> clipmax
           \<and> clipmin \<le> maxValue m' \<and> maxValue m' \<le> clipmax
           \<and> minValue m' = Min (set (accepted clipmin clipmax (samples nelements m)))
           \<and> maxValue m' = Max (set (accepted clipmin clipmax (samples nelements m)))
           \<and> minValue m' \<le> maxValue m'"
proof -
  let ?good = "accepted clipmin clipmax (samples nelements m)"
  let ?r = "core_result clipmin clipmax ?good m"
  have run: "computeMean_core nelements clipmin clipmax m = Some (1, ?r)"
    by (rule core_Some_zero [OF assms(1,2,3)])
  have fin: "finite (set ?good)" "set ?good \<noteq> {}" using assms(4) by simp_all
  have lo: "minValue ?r = Min (set ?good)"
    by (simp add: core_result_def Let_def fold_min_accepted [OF assms(4)])
  have hi: "maxValue ?r = Max (set ?good)"
    by (simp add: core_result_def Let_def fold_max_accepted [OF assms(4)])
  have sub: "set ?good = {x \<in> set (samples nelements m). clipmin \<le> x \<and> x \<le> clipmax}"
    by (simp add: accepted_def)
  have lo_in: "Min (set ?good) \<in> set ?good" by (rule Min_in [OF fin])
  have hi_in: "Max (set ?good) \<in> set ?good" by (rule Max_in [OF fin])
  have le: "Min (set ?good) \<le> Max (set ?good)" by (rule Min_le [OF fin(1) hi_in])
  have lo_ok: "Min (set ?good) \<in> set (samples nelements m)"
      "clipmin \<le> Min (set ?good)" "Min (set ?good) \<le> clipmax"
    using lo_in unfolding sub by simp_all
  have hi_ok: "Max (set ?good) \<in> set (samples nelements m)"
      "clipmin \<le> Max (set ?good)" "Max (set ?good) \<le> clipmax"
    using hi_in unfolding sub by simp_all
  have cnt: "1 \<le> numGoodPixels ?r"
    using assms(3,4) by (cases ?good) (simp_all add: core_result_def Let_def)
  show ?thesis
    using run lo hi lo_ok hi_ok le cnt by simp
qed

theorem C4_min_max_of_accepted_witness:
  "\<exists>m'. computeMean_core 5 2 4 (entry_memory [1, 4, 3, 2, 5]) = Some (1, m')
         \<and> minValue m' = 2 \<and> maxValue m' = 4 \<and> minValue m' \<le> maxValue m'"
proof -
  have g: "accepted 2 4 (samples 5 (entry_memory [1, 4, 3, 2, 5])) = [4, 3, 2]"
    by (simp add: accepted_def samples_def entry_memory_def)
  have h1: "5 \<le> int (length (image_data (entry_memory [1, 4, 3, 2, 5])))"
    by (simp add: entry_memory_def)
  have h2: "(5::int) \<le> INT_MAX" by (simp add: INT_MAX_def)
  have h3: "numGoodPixels (entry_memory [1, 4, 3, 2, 5]) = 0"
    by (simp add: entry_memory_def)
  have h4: "accepted 2 4 (samples 5 (entry_memory [1, 4, 3, 2, 5])) \<noteq> []"
    by (simp add: g)
  show ?thesis
    using C4_min_max_of_accepted [OF h1 h2 h3 h4] unfolding g by auto
qed

text \<open>
  C5. With at least two accepted samples and exact arithmetic, \<open>mean\<close> is
  \<open>sum / numGood\<close>, \<open>stddev\<close> is a non-negative number whose square is
  \<open>(sumsq - mean * sum) / (numGood - 1)\<close>, and these equal the textbook mean and the
  unbiased sample variance, the sum of \<open>(x - mean)\<^sup>2\<close> over the accepted samples
  divided by \<open>numGood - 1\<close>.
\<close>

theorem C5_stddev_is_sample_deviation:
  assumes "nelements \<le> int (length (image_data m))"
    and "nelements \<le> INT_MAX"
    and "numGoodPixels m = 0"
    and "2 \<le> length (accepted clipmin clipmax (samples nelements m))"
  shows "\<exists>l m1 m' mu s.
             loop nelements clipmin clipmax 0
               \<lparr>tmpMinValue = clipmax, tmpMaxValue = clipmin, sum_acc = 0, sumsq = 0\<rparr> m
               = Some (l, m1)
           \<and> computeMean_core nelements clipmin clipmax m = Some (1, m')
           \<and> numGoodPixels m' = int (length (accepted clipmin clipmax (samples nelements m)))
           \<and> mean m' = Finite mu \<and> stddev m' = Finite s \<and> 0 \<le> s
           \<and> mu = sum_acc l / real_of_int (numGoodPixels m')
           \<and> s\<^sup>2 = (sumsq l - mu * sum_acc l) / real_of_int (numGoodPixels m' - 1)
           \<and> mu = sample_mean (accepted clipmin clipmax (samples nelements m))
           \<and> s\<^sup>2 = sample_variance (accepted clipmin clipmax (samples nelements m))"
proof -
  let ?good = "accepted clipmin clipmax (samples nelements m)"
  let ?r = "core_result clipmin clipmax ?good m"
  let ?l0 = "\<lparr>tmpMinValue = clipmax, tmpMaxValue = clipmin, sum_acc = 0, sumsq = 0\<rparr>"
  have cnt: "numGoodPixels m + int (length ?good) \<le> INT_MAX"
    using length_accepted_le [of clipmin clipmax nelements m] assms(2,3)
    by (simp add: INT_MAX_def)
  have pass: "loop nelements clipmin clipmax 0 ?l0 m =
        Some (pass_locals ?good ?l0, m\<lparr>numGoodPixels := numGoodPixels m + int (length ?good)\<rparr>)"
    using loop_Some [of 0 nelements m clipmin clipmax ?l0] assms(1) cnt by simp
  have run: "computeMean_core nelements clipmin clipmax m = Some (1, ?r)"
    by (rule core_Some_zero [OF assms(1,2,3)])
  have n: "\<not> length ?good \<le> 1" "length ?good \<noteq> 0" using assms(4) by linarith+
  have ne: "?good \<noteq> []" using n(2) by simp
  have r: "?r = m\<lparr>numGoodPixels := int (length ?good),
                   minValue := fold min ?good clipmax,
                   maxValue := fold max ?good clipmin,
                   mean := Finite (sample_mean ?good),
                   stddev := Finite (sqrt (sample_variance ?good))\<rparr>"
    using n by (simp add: core_result_zero_entry [OF assms(3)])
  have sq: "(sqrt (sample_variance ?good))\<^sup>2 = sample_variance ?good"
    using sample_variance_nonneg [OF assms(4)] by simp
  have sc: "((\<Sum>x\<leftarrow>?good. x * x) - sample_mean ?good * sum_list ?good)
              / real_of_int (int (length ?good) - 1) = sample_variance ?good"
    using shortcut_variance [OF ne] by simp
  have "loop nelements clipmin clipmax 0 ?l0 m =
          Some (pass_locals ?good ?l0, m\<lparr>numGoodPixels := numGoodPixels m + int (length ?good)\<rparr>)
           \<and> computeMean_core nelements clipmin clipmax m = Some (1, ?r)
           \<and> numGoodPixels ?r = int (length ?good)
           \<and> mean ?r = Finite (sample_mean ?good)
           \<and> stddev ?r = Finite (sqrt (sample_variance ?good))
           \<and> 0 \<le> sqrt (sample_variance ?good)
           \<and> sample_mean ?good = sum_acc (pass_locals ?good ?l0) / real_of_int (numGoodPixels ?r)
           \<and> (sqrt (sample_variance ?good))\<^sup>2 =
                (sumsq (pass_locals ?good ?l0) - sample_mean ?good * sum_acc (pass_locals ?good ?l0))
                  / real_of_int (numGoodPixels ?r - 1)
           \<and> sample_mean ?good = sample_mean ?good
           \<and> (sqrt (sample_variance ?good))\<^sup>2 = sample_variance ?good"
    using pass run sq sc sample_variance_nonneg [OF assms(4)]
    by (simp add: r sample_mean_def pass_locals_def)
  then show ?thesis by blast
qed

theorem C5_stddev_is_sample_deviation_witness:
  "\<exists>m'. computeMean_core 5 2 4 (entry_memory [1, 2, 3, 4, 5]) = Some (1, m')
         \<and> numGoodPixels m' = 3 \<and> mean m' = Finite 3 \<and> stddev m' = Finite 1"
proof -
  have g: "accepted 2 4 (samples 5 (entry_memory [1, 2, 3, 4, 5])) = [2, 3, 4]"
    by (simp add: accepted_def samples_def entry_memory_def)
  have h1: "5 \<le> int (length (image_data (entry_memory [1, 2, 3, 4, 5])))"
    by (simp add: entry_memory_def)
  have h2: "(5::int) \<le> INT_MAX" by (simp add: INT_MAX_def)
  have h3: "numGoodPixels (entry_memory [1, 2, 3, 4, 5]) = 0"
    by (simp add: entry_memory_def)
  have h4: "2 \<le> length (accepted 2 4 (samples 5 (entry_memory [1, 2, 3, 4, 5])))"
    by (simp add: g)
  have v: "sample_variance [2, 3, 4] = 1"
    by (simp add: sample_variance_def sample_mean_def)
  obtain m' mu s where
    run: "computeMean_core 5 2 4 (entry_memory [1, 2, 3, 4, 5]) = Some (1, m')"
    and cnt: "numGoodPixels m' = 3" and mu: "mean m' = Finite mu" "mu = sample_mean [2, 3, 4]"
    and s: "stddev m' = Finite s" "0 \<le> s" "s\<^sup>2 = sample_variance [2, 3, 4]"
    using C5_stddev_is_sample_deviation [OF h1 h2 h3 h4] unfolding g by auto
  have "s = 1" using s(2,3) v by (simp add: power2_eq_1_iff)
  moreover have "mu = 3" using mu(2) by (simp add: sample_mean_def)
  ultimately show ?thesis using run cnt mu(1) s(1) by simp
qed

text \<open>
  C6, in the form the code satisfies. On a buffer holding the same samples in another
  order the call returns the same count, minimum and maximum, whatever the rounding; in
  exact arithmetic it also returns the same mean and standard deviation.
\<close>

theorem C6_permutation_count_min_max:
  assumes "mset ys = mset (image_data m)"
    and "nelements = int (length (image_data m))"
    and "nelements \<le> INT_MAX"
    and "numGoodPixels m = 0"
  shows "(\<exists>r r'. computeMean_core_fp rnd nelements clipmin clipmax m = Some (1, r)
            \<and> computeMean_core_fp rnd nelements clipmin clipmax (m\<lparr>image_data := ys\<rparr>)
                = Some (1, r')
            \<and> numGoodPixels r' = numGoodPixels r
            \<and> minValue r' = minValue r \<and> maxValue r' = maxValue r)
       \<and> (\<exists>r r'. computeMean_core_fp Finite nelements clipmin clipmax m = Some (1, r)
            \<and> computeMean_core_fp Finite nelements clipmin clipmax (m\<lparr>image_data := ys\<rparr>)
                = Some (1, r')
            \<and> numGoodPixels r' = numGoodPixels r \<and> mean r' = mean r \<and> stddev r' = stddev r
            \<and> minValue r' = minValue r \<and> maxValue r' = maxValue r)"
proof -
  let ?m' = "m\<lparr>image_data := ys\<rparr>"
  let ?good = "accepted clipmin clipmax (image_data m)"
  let ?good' = "accepted clipmin clipmax ys"
  have len: "length ys = length (image_data m)" by (rule mset_eq_length [OF assms(1)])
  have s: "samples nelements m = image_data m" by (simp add: samples_def assms(2))
  have s': "samples nelements ?m' = ys" by (simp add: samples_def assms(2) len)
  have le: "nelements \<le> int (length (image_data m))"
      "nelements \<le> int (length (image_data ?m'))"
    by (simp_all add: assms(2) len)
  have cnt': "numGoodPixels ?m' = 0" by (simp add: assms(4))
  have perm: "mset ?good' = mset ?good" by (simp add: accepted_def assms(1))
  have same: "length ?good' = length ?good" "set ?good' = set ?good"
    using mset_eq_length [OF perm] mset_eq_setD [OF perm] by simp_all
  obtain r where r: "computeMean_core_fp rnd nelements clipmin clipmax m = Some (1, r)"
      "numGoodPixels r = int (length ?good)"
      "minValue r = Min (insert clipmax (set ?good))"
      "maxValue r = Max (insert clipmin (set ?good))"
    using core_fp_count_min_max [OF le(1) assms(3,4), of rnd clipmin clipmax] unfolding s
    by blast
  obtain r' where r': "computeMean_core_fp rnd nelements clipmin clipmax ?m' = Some (1, r')"
      "numGoodPixels r' = int (length ?good')"
      "minValue r' = Min (insert clipmax (set ?good'))"
      "maxValue r' = Max (insert clipmin (set ?good'))"
    using core_fp_count_min_max [OF le(2) assms(3) cnt', of rnd clipmin clipmax] unfolding s'
    by blast
  have rounded: "\<exists>r r'. computeMean_core_fp rnd nelements clipmin clipmax m = Some (1, r)
            \<and> computeMean_core_fp rnd nelements clipmin clipmax ?m' = Some (1, r')
            \<and> numGoodPixels r' = numGoodPixels r
            \<and> minValue r' = minValue r \<and> maxValue r' = maxValue r"
    using r r' same by simp
  have exact: "\<exists>r r'. computeMean_core_fp Finite nelements clipmin clipmax m = Some (1, r)
            \<and> computeMean_core_fp Finite nelements clipmin clipmax ?m' = Some (1, r')
            \<and> numGoodPixels r' = numGoodPixels r \<and> mean r' = mean r \<and> stddev r' = stddev r
            \<and> minValue r' = minValue r \<and> maxValue r' = maxValue r"
    unfolding computeMean_core_fp_exact
    by (rule exact_permutation [OF assms])
  from rounded exact show ?thesis by blast
qed

text \<open>
  The claim as written, that the mean is the same on every permutation, fails in double
  arithmetic, where the sum is rounded after each addition in buffer order. The samples
  \<open>10\<^sup>1\<^sup>6\<close>, \<open>1\<close> and \<open>- 10\<^sup>1\<^sup>6\<close> are doubles. In that order \<open>10\<^sup>1\<^sup>6 + 1\<close> rounds
  back to \<open>10\<^sup>1\<^sup>6\<close>, the sum ends at \<open>0\<close> and the mean is \<open>0\<close>; with the \<open>1\<close> last
  the sum ends at \<open>1\<close> and the mean is the double nearest to \<open>1 / 3\<close>.
\<close>

theorem C6_counterexample:
  "mset [10000000000000000, - 10000000000000000, 1 :: real]
     = mset [10000000000000000, 1, - 10000000000000000]
   \<and> round_double 10000000000000000 = Finite 10000000000000000
   \<and> round_double 1 = Finite 1
   \<and> round_double (- 10000000000000000) = Finite (- 10000000000000000)
   \<and> map_option (mean \<circ> snd)
        (computeMean_core_fp round_double 3 (- 10000000000000000) 10000000000000000
           (entry_memory [10000000000000000, 1, - 10000000000000000]))
       = Some (Finite 0)
   \<and> map_option (mean \<circ> snd)
        (computeMean_core_fp round_double 3 (- 10000000000000000) 10000000000000000
           (entry_memory [10000000000000000, - 10000000000000000, 1]))
       = Some (Finite (6004799503160661 / 18014398509481984))"
proof -
  have a: "map_option (mean \<circ> snd)
        (computeMean_core_fp round_double 3 (- 10000000000000000) 10000000000000000
           (entry_memory [10000000000000000, 1, - 10000000000000000]))
       = Some (Finite 0)"
    by (simp add: fp_run_defs)
  have b: "map_option (mean \<circ> snd)
        (computeMean_core_fp round_double 3 (- 10000000000000000) 10000000000000000
           (entry_memory [10000000000000000, - 10000000000000000, 1]))
       = Some (Finite (6004799503160661 / 18014398509481984))"
    by (simp add: fp_run_defs)
  have c: "mset [10000000000000000, - 10000000000000000, 1 :: real]
     = mset [10000000000000000, 1, - 10000000000000000]"
    by simp
  from a b c show ?thesis
    by (simp only: rd_1 rd_1e16 rd_minus_1e16 simp_thms)
qed

theorem C6_permutation_count_min_max_witness:
  "(\<exists>r r'. computeMean_core_fp round_double 3 (- 10000000000000000) 10000000000000000
               (entry_memory [10000000000000000, 1, - 10000000000000000]) = Some (1, r)
        \<and> computeMean_core_fp round_double 3 (- 10000000000000000) 10000000000000000
               (entry_memory [10000000000000000, - 10000000000000000, 1]) = Some (1, r')
        \<and> numGoodPixels r' = numGoodPixels r
        \<and> minValue r' = minValue r \<and> maxValue r' = maxValue r)
   \<and> (\<exists>r r'. computeMean_core_fp Finite 3 (- 10000000000000000) 10000000000000000
               (entry_memory [10000000000000000, 1, - 10000000000000000]) = Some (1, r)
        \<and> computeMean_core_fp Finite 3 (- 10000000000000000) 10000000000000000
               (entry_memory [10000000000000000, - 10000000000000000, 1]) = Some (1, r')
        \<and> numGoodPixels r' = numGoodPixels r \<and> mean r' = mean r \<and> stddev r' = stddev r
        \<and> minValue r' = minValue r \<and> maxValue r' = maxValue r)"
proof -
  let ?m = "entry_memory [10000000000000000, 1, - 10000000000000000]"
  have h1: "mset [10000000000000000, - 10000000000000000, 1] = mset (image_data ?m)"
    by (simp add: entry_memory_def)
  have h2: "3 = int (length (image_data ?m))" by (simp add: entry_memory_def)
  have h3: "(3::int) \<le> INT_MAX" by (simp add: INT_MAX_def)
  have h4: "numGoodPixels ?m = 0" by (simp add: entry_memory_def)
  have e: "?m\<lparr>image_data := [10000000000000000, - 10000000000000000, 1]\<rparr>
        = entry_memory [10000000000000000, - 10000000000000000, 1]"
    by (simp add: entry_memory_def)
  show ?thesis
    using C6_permutation_count_min_max [OF h1 h2 h3 h4, where rnd = round_double
        and clipmin = "- 10000000000000000" and clipmax = 10000000000000000]
    unfolding e .
qed

text \<open>
  C7. With exactly one accepted sample \<open>x\<close> the standard deviation is \<open>0 / 0\<close>:
  \<open>sumsq\<close> is \<open>x * x\<close>, \<open>mean * sum\<close> is \<open>x * x\<close>, so the numerator is exactly zero,
  the divisor \<open>numGood - 1\<close> is zero, and the stored value is NaN.
\<close>

theorem C7_single_sample_zero_over_zero:
  assumes "nelements \<le> int (length (image_data m))"
    and "numGoodPixels m = 0"
    and "accepted clipmin clipmax (samples nelements m) = [x]"
  shows "\<exists>l m1 m'. loop nelements clipmin clipmax 0
                      \<lparr>tmpMinValue = clipmax, tmpMaxValue = clipmin, sum_acc = 0, sumsq = 0\<rparr> m
                    = Some (l, m1)
           \<and> computeMean_core nelements clipmin clipmax m = Some (1, m')
           \<and> numGoodPixels m' = 1
           \<and> sum_acc l = x \<and> sumsq l = x * x \<and> mean m' = Finite x
           \<and> dmul (mean m') (Finite (sum_acc l)) = Finite (x * x)
           \<and> dsub (Finite (sumsq l)) (dmul (mean m') (Finite (sum_acc l))) = Finite 0
           \<and> numGoodPixels m' - 1 = 0
           \<and> stddev m' = dsqrt (ddiv_int (Finite 0) 0)
           \<and> stddev m' = NaN"
proof -
  let ?l0 = "\<lparr>tmpMinValue = clipmax, tmpMaxValue = clipmin, sum_acc = 0, sumsq = 0\<rparr>"
  have pass: "loop nelements clipmin clipmax 0 ?l0 m =
        Some (pass_locals [x] ?l0, m\<lparr>numGoodPixels := 1\<rparr>)"
    using loop_Some [of 0 nelements m clipmin clipmax ?l0] assms by (simp add: INT_MAX_def)
  have run: "computeMean_core nelements clipmin clipmax m =
        Some (1, core_result clipmin clipmax [x] m)"
    using core_Some [of nelements m clipmin clipmax] assms by (simp add: INT_MAX_def INT_MIN_def)
  show ?thesis
    using assms(2) by (simp add: pass run pass_locals_def core_result_def Let_def)
qed

theorem C7_single_sample_zero_over_zero_witness:
  "\<exists>m'. computeMean_core 3 10 20 (entry_memory [5, 15, 25]) = Some (1, m')
         \<and> numGoodPixels m' = 1 \<and> mean m' = Finite 15 \<and> stddev m' = NaN"
proof -
  have h1: "3 \<le> int (length (image_data (entry_memory [5, 15, 25])))"
    by (simp add: entry_memory_def)
  have h2: "numGoodPixels (entry_memory [5, 15, 25]) = 0"
    by (simp add: entry_memory_def)
  have h3: "accepted 10 20 (samples 3 (entry_memory [5, 15, 25])) = [15]"
    by (simp add: accepted_def samples_def entry_memory_def)
  show ?thesis
    using C7_single_sample_zero_over_zero [OF h1 h2 h3] by auto
qed

text \<open>
  C8. The computation never signals a failure. On every buffer with its length, and any
  clip bounds, the core returns status 1 and leaves all five outputs set, whatever the
  four double locations held before; with no accepted sample the mean and the standard
  deviation are NaN, with one the standard deviation is NaN, and otherwise both are
  finite. The binding, once its arguments are converted, returns the 5-tuple and not
  \<open>NULL\<close>.
\<close>

theorem C8_status_always_one:
  assumes "nelements \<le> int (length (image_data m))"
    and "nelements \<le> INT_MAX"
    and "numGoodPixels m = 0"
  shows "(\<exists>m'. computeMean_core nelements clipmin clipmax m = Some (1, m')
            \<and> computeMean_core nelements clipmin clipmax
                 (m\<lparr>mean := a, stddev := b, minValue := c, maxValue := d\<rparr>) = Some (1, m')
            \<and> numGoodPixels m' = int (length (accepted clipmin clipmax (samples nelements m)))
            \<and> minValue m' = Min (insert clipmax (set (accepted clipmin clipmax (samples nelements m))))
            \<and> maxValue m' = Max (insert clipmin (set (accepted clipmin clipmax (samples nelements m))))
            \<and> mean m' =
                (if length (accepted clipmin clipmax (samples nelements m)) = 0 then NaN
                 else Finite (sample_mean (accepted clipmin clipmax (samples nelements m))))
            \<and> stddev m' =
                (if length (accepted clipmin clipmax (samples nelements m)) \<le> 1 then NaN
                 else Finite (sqrt (sample_variance (accepted clipmin clipmax (samples nelements m))))))
       \<and> (\<exists>n mu sd lo hi. computeMean (Some (Some buf, clipmin, clipmax)) =
             Some (PyTuple_idddd n mu sd lo hi))"
proof -
  let ?good = "accepted clipmin clipmax (samples nelements m)"
  let ?m2 = "m\<lparr>mean := a, stddev := b, minValue := c, maxValue := d\<rparr>"
  have run: "computeMean_core nelements clipmin clipmax m =
               Some (1, core_result clipmin clipmax ?good m)"
    by (rule core_Some_zero [OF assms])
  have s2: "samples nelements ?m2 = samples nelements m" by (simp add: samples_def)
  have run2: "computeMean_core nelements clipmin clipmax ?m2 =
               Some (1, core_result clipmin clipmax ?good ?m2)"
    using core_Some_zero [of nelements ?m2 clipmin clipmax] assms by (simp add: s2)
  have same: "core_result clipmin clipmax ?good ?m2 = core_result clipmin clipmax ?good m"
    by (simp add: core_result_def Let_def)
  have "\<exists>m'. computeMean_core nelements clipmin clipmax m = Some (1, m')
            \<and> computeMean_core nelements clipmin clipmax ?m2 = Some (1, m')
            \<and> numGoodPixels m' = int (length ?good)
            \<and> minValue m' = Min (insert clipmax (set ?good))
            \<and> maxValue m' = Max (insert clipmin (set ?good))
            \<and> mean m' = (if length ?good = 0 then NaN else Finite (sample_mean ?good))
            \<and> stddev m' = (if length ?good \<le> 1 then NaN
                           else Finite (sqrt (sample_variance ?good)))"
    unfolding run run2 same
    by (simp add: core_result_zero_entry [OF assms(3)] fold_min_Min fold_max_Max)
  then show ?thesis
    using computeMean_returns_tuple [of buf clipmin clipmax] by blast
qed

theorem C8_status_always_one_witness:
  "(\<exists>m'. computeMean_core 0 0 1 (entry_memory []) = Some (1, m')
        \<and> numGoodPixels m' = 0 \<and> mean m' = NaN \<and> stddev m' = NaN)
   \<and> (\<exists>m'. computeMean_core 1 0 20 (entry_memory [10]) = Some (1, m')
        \<and> numGoodPixels m' = 1 \<and> mean m' = Finite 10 \<and> stddev m' = NaN
        \<and> minValue m' = 10 \<and> maxValue m' = 10)"
proof -
  have g0: "accepted 0 1 (samples 0 (entry_memory [])) = []"
    by (simp add: accepted_def samples_def entry_memory_def)
  have g1: "accepted 0 20 (samples 1 (entry_memory [10])) = [10]"
    by (simp add: accepted_def samples_def entry_memory_def)
  have a: "0 \<le> int (length (image_data (entry_memory [])))" "(0::int) \<le> INT_MAX"
      "numGoodPixels (entry_memory []) = 0"
    by (simp_all add: entry_memory_def INT_MAX_def)
  have b: "1 \<le> int (length (image_data (entry_memory [10])))" "(1::int) \<le> INT_MAX"
      "numGoodPixels (entry_memory [10]) = 0"
    by (simp_all add: entry_memory_def INT_MAX_def)
  have "\<exists>m'. computeMean_core 0 0 1 (entry_memory []) = Some (1, m')
        \<and> numGoodPixels m' = 0 \<and> mean m' = NaN \<and> stddev m' = NaN"
    using C8_status_always_one [OF a, where clipmin = 0 and clipmax = 1 and a = NaN and b = NaN
        and c = 0 and d = 0 and buf = "[]"] unfolding g0 by auto
  moreover have "\<exists>m'. computeMean_core 1 0 20 (entry_memory [10]) = Some (1, m')
        \<and> numGoodPixels m' = 1 \<and> mean m' = Finite 10 \<and> stddev m' = NaN
        \<and> minValue m' = 10 \<and> maxValue m' = 10"
    using C8_status_always_one [OF b, where clipmin = 0 and clipmax = 20 and a = NaN and b = NaN
        and c = 0 and d = 0 and buf = "[10]"] unfolding g1 by (auto simp add: sample_mean_def)
  ultimately show ?thesis by blast
qed

text \<open>
  C9. Purity and determinism. The call leaves the buffer as it found it, and the five
  outputs depend only on the samples visited, the clip bounds and the counter on entry:
  a second call on the same samples from the same counter returns the same five values,
  even when the rest of its memory differs.
\<close>

theorem C9_buffer_unchanged_and_deterministic:
  assumes "nelements \<le> int (length (image_data m))"
    and "numGoodPixels m + int (length (accepted clipmin clipmax (samples nelements m))) \<le> INT_MAX"
    and "INT_MIN < numGoodPixels m + int (length (accepted clipmin clipmax (samples nelements m)))"
    and "nelements \<le> int (length (image_data m2))"
    and "samples nelements m2 = samples nelements m"
    and "numGoodPixels m2 = numGoodPixels m"
  shows "\<exists>r r2. computeMean_core nelements clipmin clipmax m = Some (1, r)
           \<and> image_data r = image_data m
           \<and> computeMean_core nelements clipmin clipmax m2 = Some (1, r2)
           \<and> image_data r2 = image_data m2
           \<and> numGoodPixels r2 = numGoodPixels r \<and> mean r2 = mean r \<and> stddev r2 = stddev r
           \<and> minValue r2 = minValue r \<and> maxValue r2 = maxValue r"
proof -
  let ?good = "accepted clipmin clipmax (samples nelements m)"
  have run: "computeMean_core nelements clipmin clipmax m =
               Some (1, core_result clipmin clipmax ?good m)"
    by (rule core_Some [OF assms(1,2,3)])
  have run2: "computeMean_core nelements clipmin clipmax m2 =
               Some (1, core_result clipmin clipmax ?good m2)"
    using core_Some [of nelements m2 clipmin clipmax] assms by simp
  show ?thesis
    unfolding run run2 using assms(6) by (simp add: core_result_def Let_def)
qed

theorem C9_buffer_unchanged_and_deterministic_witness:
  "\<exists>r r2. computeMean_core 2 0 10 (entry_memory [1, 2, 3]) = Some (1, r)
         \<and> image_data r = [1, 2, 3]
         \<and> computeMean_core 2 0 10
              \<lparr>image_data = [1, 2, 7, 8], numGoodPixels = 0, mean = NaN, stddev = PInf,
               minValue = 5, maxValue = 6\<rparr> = Some (1, r2)
         \<and> image_data r2 = [1, 2, 7, 8]
         \<and> numGoodPixels r2 = numGoodPixels r \<and> mean r2 = mean r \<and> stddev r2 = stddev r
         \<and> minValue r2 = minValue r \<and> maxValue r2 = maxValue r"
proof -
  let ?m = "entry_memory [1, 2, 3]"
  let ?m2 = "\<lparr>image_data = [1, 2, 7, 8], numGoodPixels = 0, mean = NaN, stddev = PInf,
               minValue = 5, maxValue = 6\<rparr>"
  have g: "accepted 0 10 (samples 2 ?m) = [1, 2]"
    by (simp add: accepted_def samples_def entry_memory_def)
  have h1: "2 \<le> int (length (image_data ?m))" by (simp add: entry_memory_def)
  have h2: "numGoodPixels ?m + int (length (accepted 0 10 (samples 2 ?m))) \<le> INT_MAX"
    unfolding g by (simp add: entry_memory_def INT_MAX_def)
  have h3: "INT_MIN < numGoodPixels ?m + int (length (accepted 0 10 (samples 2 ?m)))"
    unfolding g by (simp add: entry_memory_def INT_MIN_def)
  have h4: "2 \<le> int (length (image_data ?m2))" by simp
  have h5: "samples 2 ?m2 = samples 2 ?m" by (simp add: samples_def entry_memory_def)
  have h6: "numGoodPixels ?m2 = numGoodPixels ?m" by (simp add: entry_memory_def)
  show ?thesis
    using C9_buffer_unchanged_and_deterministic [OF h1 h2 h3 h4 h5 h6]
    by (simp add: entry_memory_def)
qed

text \<open>
  C10. Reversed clip bounds reject everything: with \<open>clipmax < clipmin\<close> no sample passes
  the test, the count is zero, and the call ends with \<open>minValue = clipmax\<close> and
  \<open>maxValue = clipmin\<close>, so that \<open>minValue < maxValue\<close> nevertheless.
\<close>

theorem C10_reversed_bounds_reject_all:
  assumes "nelements \<le> int (length (image_data m))"
    and "numGoodPixels m = 0"
    and "clipmax < clipmin"
  shows "accepted clipmin clipmax (samples nelements m) = []
       \<and> (\<exists>m'. computeMean_core nelements clipmin clipmax m = Some (1, m')
            \<and> numGoodPixels m' = 0 \<and> mean m' = NaN \<and> stddev m' = NaN
            \<and> minValue m' = clipmax \<and> maxValue m' = clipmin
            \<and> minValue m' < maxValue m')"
proof -
  have none: "accepted clipmin clipmax (samples nelements m) = []"
    using assms(3) by (simp add: accepted_def filter_empty_conv)
  have "computeMean_core nelements clipmin clipmax m =
        Some (1, core_result clipmin clipmax (accepted clipmin clipmax (samples nelements m)) m)"
    using assms(1,2) by (intro core_Some) (simp_all add: none INT_MAX_def INT_MIN_def)
  then show ?thesis
    using assms(3) by (simp add: none core_result_zero_entry [OF assms(2)])
qed

theorem C10_reversed_bounds_reject_all_witness:
  "accepted 4 2 (samples 5 (entry_memory [1, 2, 3, 4, 5])) = []
   \<and> (\<exists>m'. computeMean_core 5 4 2 (entry_memory [1, 2, 3, 4, 5]) = Some (1, m')
        \<and> numGoodPixels m' = 0 \<and> minValue m' = 2 \<and> maxValue m' = 4)"
proof -
  have h1: "5 \<le> int (length (image_data (entry_memory [1, 2, 3, 4, 5])))"
    by (simp add: entry_memory_def)
  have h2: "numGoodPixels (entry_memory [1, 2, 3, 4, 5]) = 0"
    by (simp add: entry_memory_def)
  have h3: "(2::real) < 4" by simp
  show ?thesis
    using C10_reversed_bounds_reject_all [OF h1 h2 h3] by auto
qed

end
